theory Spec2Isabelle
  imports Main
begin

section \<open>Report downloader: job lifecycle of the server and of the client hook\<close>

text \<open>
  The server (\<^verbatim>\<open>src/server/src/index.ts\<close>) keeps a \<^verbatim>\<open>Map\<close> from job ids to report
  records and has three routes: one that creates a job and schedules its completion with
  \<^verbatim>\<open>setTimeout\<close>, one that streams the status of a job as server-sent events, and one
  that serves the finished report. The client hook \<^verbatim>\<open>useReportGeneration\<close> keeps a list
  of jobs, reloads it from local storage and reacts to the frames of the status stream.

  The handlers are embedded as functions on an explicit server state. Everything the
  handlers read from their environment is a parameter: the request data, the value of
  \<^verbatim>\<open>Date.now()\<close> and the identifier returned by \<^verbatim>\<open>uuidv4()\<close>. Data has the types the
  source declares: the name of a report is a string, a time stamp an integer number of
  milliseconds.
\<close>

subsection \<open>JavaScript string operations\<close>

text \<open>
  A string is a list of characters, each standing for one code unit of the JavaScript
  string; a character has 256 values, so the strings of the model are those whose code
  units are below U+0100. On these \<^verbatim>\<open>toLowerCase\<close> lowers the letters A to Z and the
  letters U+00C0 to U+00DE other than the multiplication sign U+00D7, each to the code unit
  32 above it, and keeps every other code unit. The class \<^verbatim>\<open>\s\<close> holds tab, line feed,
  vertical tab, form feed, carriage return, space and the no-break space U+00A0.
\<close>

definition upper_letters :: string where
  "upper_letters =
     ''ABCDEFGHIJKLMNOPQRSTUVWXYZ'' @
     [CHR 0xC0, CHR 0xC1, CHR 0xC2, CHR 0xC3, CHR 0xC4, CHR 0xC5, CHR 0xC6, CHR 0xC7,
      CHR 0xC8, CHR 0xC9, CHR 0xCA, CHR 0xCB, CHR 0xCC, CHR 0xCD, CHR 0xCE, CHR 0xCF,
      CHR 0xD0, CHR 0xD1, CHR 0xD2, CHR 0xD3, CHR 0xD4, CHR 0xD5, CHR 0xD6, CHR 0xD8,
      CHR 0xD9, CHR 0xDA, CHR 0xDB, CHR 0xDC, CHR 0xDD, CHR 0xDE]"

definition lower_letters :: string where
  "lower_letters =
     ''abcdefghijklmnopqrstuvwxyz'' @
     [CHR 0xE0, CHR 0xE1, CHR 0xE2, CHR 0xE3, CHR 0xE4, CHR 0xE5, CHR 0xE6, CHR 0xE7,
      CHR 0xE8, CHR 0xE9, CHR 0xEA, CHR 0xEB, CHR 0xEC, CHR 0xED, CHR 0xEE, CHR 0xEF,
      CHR 0xF0, CHR 0xF1, CHR 0xF2, CHR 0xF3, CHR 0xF4, CHR 0xF5, CHR 0xF6, CHR 0xF8,
      CHR 0xF9, CHR 0xFA, CHR 0xFB, CHR 0xFC, CHR 0xFD, CHR 0xFE]"

definition toLowerCase_char :: "char \<Rightarrow> char" where
  "toLowerCase_char c =
     (case map_of (zip upper_letters lower_letters) c of
        None \<Rightarrow> c
      | Some l \<Rightarrow> l)"

definition toLowerCase :: "string \<Rightarrow> string" where
  "toLowerCase s = map toLowerCase_char s"

definition is_space :: "char \<Rightarrow> bool" where
  "is_space c =
     (c \<in> set [CHR 0x09, CHR 0x0A, CHR 0x0B, CHR 0x0C, CHR 0x0D, CHR '' '', CHR 0xA0])"

text \<open>\<^verbatim>\<open>s.replace(/\s+/g, '-')\<close>: every maximal run of white space becomes one dash.\<close>

function replace_spaces :: "string \<Rightarrow> string" where
  "replace_spaces [] = []"
| "replace_spaces (c # cs) =
     (if is_space c then CHR ''-'' # replace_spaces (dropWhile is_space cs)
      else c # replace_spaces cs)"
  by pat_completeness auto
termination
  by (relation "measure length") (auto simp: less_Suc_eq_le length_dropWhile_le)

fun startsWith :: "string \<Rightarrow> string \<Rightarrow> bool" where
  "startsWith s [] = True"
| "startsWith [] (p # ps) = False"
| "startsWith (c # cs) (p # ps) = (c = p \<and> startsWith cs ps)"

text \<open>\<^verbatim>\<open>s.includes(sub)\<close>: \<open>sub\<close> occurs in \<open>s\<close> at some position.\<close>

fun str_includes :: "string \<Rightarrow> string \<Rightarrow> bool" where
  "str_includes [] sub = startsWith [] sub"
| "str_includes (c # cs) sub = (startsWith (c # cs) sub \<or> str_includes cs sub)"

text \<open>
  Truthiness of an optional string, as \<^verbatim>\<open>!name\<close> and \<^verbatim>\<open>!report.filePath\<close> test it:
  \<^verbatim>\<open>undefined\<close> and the empty string are falsy.
\<close>

definition falsy :: "string option \<Rightarrow> bool" where
  "falsy v = (case v of None \<Rightarrow> True | Some str \<Rightarrow> str = [])"

subsection \<open>The server's data\<close>

datatype status = Pending | Completed | Failed

text \<open>
  \<^verbatim>\<open>interface ReportData\<close>. The job id is not a field: it is the key of the record in the
  store.
\<close>

record ReportData =
  status :: status
  name :: string
  createdAt :: int
  filePath :: "string option"
  error :: "string option"

text \<open>
  What a route answers: the status code, the headers the route sets with
  \<^verbatim>\<open>res.setHeader\<close>, and the body. What the framework adds when it sends the answer (the
  length, and the character set it appends to the Content-Type of a text body) is not part
  of the record. \<open>ErrorPage\<close> is the body of the answer the framework gives, with status 500,
  when a handler throws.
\<close>

datatype payload = JsonError string | JsonJobId string | Text string | ErrorPage

record response =
  statusCode :: nat
  headers :: "(string \<times> string) list"
  body :: payload

text \<open>
  A status stream is the response object of one request to the status route: the frames
  written to it so far, and whether \<^verbatim>\<open>res.end()\<close> was called. A frame carries what was
  given to \<^verbatim>\<open>JSON.stringify\<close>: an error object or a report record. The three headers the
  route sets on every stream are the same for all and are left out.
\<close>

datatype frame = ErrorFrame string | ReportFrame ReportData

record sse =
  frames :: "frame list"
  ended :: bool

text \<open>
  A pending \<^verbatim>\<open>setTimeout\<close>: its delay in milliseconds and its callback. The callbacks are
  closures; a task holds the variables the closure captured. \<open>CompleteReport jobId name now\<close>
  is the callback of the generation route, \<open>CheckStatus res jobId\<close> is \<^verbatim>\<open>checkStatus\<close> of
  the status route, where \<open>res\<close> is the position of the stream in the list of streams.
\<close>

datatype task = CompleteReport string string int | CheckStatus nat string

type_synonym timer = "int \<times> task"

record server =
  reports :: "string \<rightharpoonup> ReportData"
  timers :: "timer list"
  streams :: "sse list"

definition init :: server where
  "init = \<lparr>reports = Map.empty, timers = [], streams = []\<rparr>"

subsection \<open>POST /api/generate-report\<close>

text \<open>
  \<open>reqName\<close> is \<^verbatim>\<open>req.body.name\<close> (\<open>None\<close> when the body has no name), \<open>jobId\<close> is the value
  \<^verbatim>\<open>uuidv4()\<close> returns and \<open>now\<close> the value of \<^verbatim>\<open>Date.now()\<close>.
\<close>

definition generate_report :: "server \<Rightarrow> string option \<Rightarrow> string \<Rightarrow> int \<Rightarrow> server \<times> response" where
  "generate_report s reqName jobId now =
     (if falsy reqName then
        (s, \<lparr>statusCode = 400, headers = [], body = JsonError ''Report name is required''\<rparr>)
      else
        let nm = the reqName;
            s1 = s\<lparr>reports := (reports s)(jobId \<mapsto>
                   \<lparr>status = Pending, name = nm, createdAt = now,
                    filePath = None, error = None\<rparr>)\<rparr>;
            delay = (if str_includes (toLowerCase nm) ''sales'' then 8000 else 5000)
        in (s1\<lparr>timers := timers s1 @ [(delay, CompleteReport jobId nm now)]\<rparr>,
            \<lparr>statusCode = 200, headers = [], body = JsonJobId jobId\<rparr>))"

text \<open>
  The body of the \<^verbatim>\<open>try\<close> block of the timeout callback: it builds the file path. A JavaScript
  exception would be the \<open>Inl\<close> result; the string operations of the block raise none.
\<close>

datatype js_error = JsError string

definition simulate_generation :: "string \<Rightarrow> string \<Rightarrow> js_error + string" where
  "simulate_generation nm jobId =
     Inr (''/reports/'' @ replace_spaces (toLowerCase nm) @ ''-'' @ jobId @ ''.csv'')"

text \<open>The timeout callback, with its \<^verbatim>\<open>catch\<close> branch.\<close>

definition complete_report :: "server \<Rightarrow> string \<Rightarrow> string \<Rightarrow> int \<Rightarrow> server" where
  "complete_report s jobId nm now =
     (case simulate_generation nm jobId of
        Inr path \<Rightarrow>
          s\<lparr>reports := (reports s)(jobId \<mapsto>
               \<lparr>status = Completed, name = nm, createdAt = now,
                filePath = Some path, error = None\<rparr>)\<rparr>
      | Inl e \<Rightarrow>
          s\<lparr>reports := (reports s)(jobId \<mapsto>
               \<lparr>status = Failed, name = nm, createdAt = now,
                filePath = None, error = Some ''Failed to generate report''\<rparr>)\<rparr>)"

subsection \<open>GET /api/report-status/:jobId\<close>

definition write_frame :: "nat \<Rightarrow> frame \<Rightarrow> server \<Rightarrow> server" where
  "write_frame res f s =
     s\<lparr>streams := (streams s)[res := (streams s ! res)\<lparr>frames := frames (streams s ! res) @ [f]\<rparr>]\<rparr>"

definition end_stream :: "nat \<Rightarrow> server \<Rightarrow> server" where
  "end_stream res s = s\<lparr>streams := (streams s)[res := (streams s ! res)\<lparr>ended := True\<rparr>]\<rparr>"

definition checkStatus :: "server \<Rightarrow> nat \<Rightarrow> string \<Rightarrow> server" where
  "checkStatus s res jobId =
     (case reports s jobId of
        None \<Rightarrow> end_stream res (write_frame res (ErrorFrame ''Report not found'') s)
      | Some currentReport \<Rightarrow>
          let s1 = write_frame res (ReportFrame currentReport) s in
          if status currentReport = Completed \<or> status currentReport = Failed
          then end_stream res s1
          else s1\<lparr>timers := timers s1 @ [(50000, CheckStatus res jobId)]\<rparr>)"

text \<open>
  The route opens a new stream (the response object of this request), then answers as the
  source does: not found, expired, or the first run of \<^verbatim>\<open>checkStatus\<close>.
\<close>

definition report_status :: "server \<Rightarrow> string \<Rightarrow> int \<Rightarrow> server" where
  "report_status s jobId now =
     (let res = length (streams s);
          s0 = s\<lparr>streams := streams s @ [\<lparr>frames = [], ended = False\<rparr>]\<rparr>
      in case reports s0 jobId of
           None \<Rightarrow> end_stream res (write_frame res (ErrorFrame ''Report not found'') s0)
         | Some report \<Rightarrow>
             let thirtyMinutesAgo = now - (30 * 60 * 1000) in
             if createdAt report < thirtyMinutesAgo
             then end_stream res (write_frame res (ErrorFrame ''Report expired'')
                    (s0\<lparr>reports := (reports s0)(jobId := None)\<rparr>))
             else checkStatus s0 res jobId)"

subsection \<open>GET /api/download-report/:jobId\<close>

definition csvContent :: "ReportData \<Rightarrow> string" where
  "csvContent report =
     ''id,name,value\<newline>'' @
     (if str_includes (toLowerCase (name report)) ''sales''
      then ''1,Product A,1000\<newline>2,Product B,2000\<newline>3,Product C,3000''
      else ''1,Item X,50\<newline>2,Item Y,75\<newline>3,Item Z,100'')"

text \<open>
  \<^verbatim>\<open>res.setHeader\<close> throws when the value has a code unit that may not stand in a header:
  among the code units below U+0100 these are the control characters other than tab, and
  U+007F.
\<close>

definition invalid_header_char :: "char \<Rightarrow> bool" where
  "invalid_header_char c =
     (c \<in> set
       [CHR 0x00, CHR 0x01, CHR 0x02, CHR 0x03, CHR 0x04, CHR 0x05, CHR 0x06, CHR 0x07,
        CHR 0x08, CHR 0x0A, CHR 0x0B, CHR 0x0C, CHR 0x0D, CHR 0x0E, CHR 0x0F, CHR 0x10,
        CHR 0x11, CHR 0x12, CHR 0x13, CHR 0x14, CHR 0x15, CHR 0x16, CHR 0x17, CHR 0x18,
        CHR 0x19, CHR 0x1A, CHR 0x1B, CHR 0x1C, CHR 0x1D, CHR 0x1E, CHR 0x1F, CHR 0x7F])"

text \<open>
  The route. Its last step sets the two headers; the file name in the second is built from
  the name of the report, and when \<^verbatim>\<open>res.setHeader\<close> throws on it the framework answers 500
  with its error page and the route sends nothing.
\<close>

definition download_report :: "server \<Rightarrow> string \<Rightarrow> int \<Rightarrow> server \<times> response" where
  "download_report s jobId now =
     (case reports s jobId of
        None \<Rightarrow> (s, \<lparr>statusCode = 404, headers = [], body = JsonError ''Report not found''\<rparr>)
      | Some report \<Rightarrow>
          if status report \<noteq> Completed \<or> falsy (filePath report) then
            (s, \<lparr>statusCode = 400, headers = [],
                 body = JsonError ''Report is not ready for download''\<rparr>)
          else
            let thirtyMinutesAgo = now - (30 * 60 * 1000) in
            if createdAt report < thirtyMinutesAgo then
              (s\<lparr>reports := (reports s)(jobId := None)\<rparr>,
               \<lparr>statusCode = 400, headers = [], body = JsonError ''Report has expired''\<rparr>)
            else
              let disposition = ''attachment; filename='' @
                                replace_spaces (toLowerCase (name report)) @ ''.csv'' in
              if list_ex invalid_header_char disposition then
                (s, \<lparr>statusCode = 500, headers = [], body = ErrorPage\<rparr>)
              else
                (s, \<lparr>statusCode = 200,
                     headers = [(''Content-Type'', ''text/csv''),
                                (''Content-Disposition'', disposition)],
                     body = Text (csvContent report)\<rparr>))"

subsection \<open>The event loop\<close>

text \<open>
  One event is one run of a handler or of a timer callback; the server is single threaded,
  so the runs do not overlap. \<open>Fire k\<close> runs the pending timer at position \<open>k\<close> and removes it
  (a timeout runs once). Which timer fires next and when is left open: every property
  proved over all event sequences holds for the real schedule too. In particular the
  readings of \<^verbatim>\<open>Date.now()\<close>, the wall clock, are not tied to the delays of the timers,
  which run on the timer clock of the runtime.
\<close>

datatype event =
    Generate "string option" string int
  | Status string int
  | Download string int
  | Fire nat

fun run_task :: "server \<Rightarrow> task \<Rightarrow> server" where
  "run_task s (CompleteReport jobId nm now) = complete_report s jobId nm now"
| "run_task s (CheckStatus res jobId) = checkStatus s res jobId"

definition fire :: "server \<Rightarrow> nat \<Rightarrow> server" where
  "fire s k =
     (if k < length (timers s)
      then run_task (s\<lparr>timers := take k (timers s) @ drop (Suc k) (timers s)\<rparr>)
             (snd (timers s ! k))
      else s)"

fun step :: "server \<Rightarrow> event \<Rightarrow> server" where
  "step s (Generate reqName jobId now) = fst (generate_report s reqName jobId now)"
| "step s (Status jobId now) = report_status s jobId now"
| "step s (Download jobId now) = fst (download_report s jobId now)"
| "step s (Fire k) = fire s k"

definition exec :: "event list \<Rightarrow> server" where
  "exec es = foldl step init es"

text \<open>
  The identifiers \<^verbatim>\<open>uuidv4()\<close> has returned in a run: the route calls it only after the
  name passed validation. That the library never returns the same identifier twice is its
  contract; \<open>fresh_ids\<close> states it of a run.
\<close>

fun uuid_of :: "event \<Rightarrow> string list" where
  "uuid_of (Generate reqName jobId now) = (if falsy reqName then [] else [jobId])"
| "uuid_of (Status jobId now) = []"
| "uuid_of (Download jobId now) = []"
| "uuid_of (Fire k) = []"

definition generated_ids :: "event list \<Rightarrow> string list" where
  "generated_ids es = concat (map uuid_of es)"

definition fresh_ids :: "event list \<Rightarrow> bool" where
  "fresh_ids es = distinct (generated_ids es)"

text \<open>
  Modelled from the spec: the identifier generator \<^verbatim>\<open>uuidv4\<close> of the library \<^verbatim>\<open>uuid\<close>, which
  the generation route calls and which is not among the sources. The spec calls a job id an
  opaque unique identifier, generated at creation, fresh at every allocation and unique
  across the store's lifetime. The generator is modelled by its history: given the
  identifiers it has returned so far it returns a string that is not among them (one that is
  longer than each of them; the id is opaque, so its spelling does not matter).
\<close>

definition uuidv4 :: "string list \<Rightarrow> string" where
  "uuidv4 returned = replicate (Suc (foldr (\<lambda>i. max (length i)) returned 0)) CHR ''0''"

text \<open>
  A run of the server that takes its ids from the generator: the id of every valid
  generation request is replaced by the one the generator returns after those it has
  returned before. A request without a name calls no generator and is left as it is.
\<close>

fun issue_ids :: "string list \<Rightarrow> event list \<Rightarrow> event list" where
  "issue_ids returned [] = []"
| "issue_ids returned (Generate reqName jobId now # es) =
     (if falsy reqName then Generate reqName jobId now # issue_ids returned es
      else Generate reqName (uuidv4 returned) now #
           issue_ids (returned @ [uuidv4 returned]) es)"
| "issue_ids returned (Status jobId now # es) = Status jobId now # issue_ids returned es"
| "issue_ids returned (Download jobId now # es) = Download jobId now # issue_ids returned es"
| "issue_ids returned (Fire k # es) = Fire k # issue_ids returned es"

subsection \<open>The client hook\<close>

text \<open>
  \<^verbatim>\<open>interface ReportStatus\<close> and \<^verbatim>\<open>interface ReportJob\<close> of \<^verbatim>\<open>useReportGeneration\<close>. The field
  names carry a prefix where the server record has a field of the same name.
\<close>

record ReportStatus =
  rs_status :: status
  rs_error :: "string option"
  timestamp :: "int option"

record ReportJob =
  job_id :: string
  job_status :: ReportStatus
  job_name :: string
  job_createdAt :: int
  downloaded :: "bool option"

record storageConfig =
  storageKey :: "string option"
  expiryTime :: "int option"

definition DEFAULT_expiryTime :: int where
  "DEFAULT_expiryTime = 30 * 60 * 1000"

text \<open>
  \<^verbatim>\<open>storageConfig.expiryTime ?? DEFAULT_STORAGE_CONFIG.expiryTime\<close>, where the whole
  configuration defaults to \<^verbatim>\<open>DEFAULT_STORAGE_CONFIG\<close> when the options have none.
\<close>

definition expiryTime_of :: "storageConfig option \<Rightarrow> int" where
  "expiryTime_of cfg =
     (case cfg of
        None \<Rightarrow> DEFAULT_expiryTime
      | Some c \<Rightarrow> (case expiryTime c of None \<Rightarrow> DEFAULT_expiryTime | Some e \<Rightarrow> e))"

text \<open>
  The initializer of the \<^verbatim>\<open>jobs\<close> state. \<open>storedJobs\<close> is the parsed content of the storage
  key, \<open>None\<close> when \<^verbatim>\<open>localStorage.getItem\<close> returns nothing; \<open>now\<close> is \<^verbatim>\<open>Date.now()\<close>, taken
  as one reading for the whole filter.
\<close>

definition initial_jobs :: "storageConfig option \<Rightarrow> ReportJob list option \<Rightarrow> int \<Rightarrow> ReportJob list" where
  "initial_jobs cfg storedJobs now =
     (case storedJobs of
        None \<Rightarrow> []
      | Some parsedJobs \<Rightarrow>
          filter (\<lambda>job. rs_status (job_status job) \<noteq> Completed \<and>
                        now - job_createdAt job < expiryTime_of cfg) parsedJobs)"

text \<open>
  The effects of the message handler: an assignment to \<^verbatim>\<open>window.location.href\<close>, a call
  of \<^verbatim>\<open>onJobCompleted\<close>, a call of \<^verbatim>\<open>onJobFailed\<close> and \<^verbatim>\<open>eventSource.close()\<close> for the
  stream of a job. The function given to \<^verbatim>\<open>setJobs\<close> is applied once to the current list,
  as the production build of the framework does.
\<close>

datatype effect =
    Navigate string
  | JobCompleted ReportJob
  | JobFailed ReportJob
  | CloseSource string

record client =
  jobs :: "ReportJob list"
  effects :: "effect list"

text \<open>\<^verbatim>\<open>!j.downloaded\<close> holds when the flag is undefined or false.\<close>

definition is_downloaded :: "ReportJob \<Rightarrow> bool" where
  "is_downloaded j = (downloaded j = Some True)"

text \<open>
  The function given to \<^verbatim>\<open>prev.map\<close> in \<^verbatim>\<open>eventSource.onmessage\<close>, for the stream of the job
  \<open>jobId\<close>: the new list element and the effects of this call. \<open>href\<close> builds the download
  address from the job id: \<^verbatim>\<open>apiConfig.baseUrl\<close> followed by
  \<^verbatim>\<open>apiConfig.downloadEndpoint(job.id)\<close> in one version of the hook, the endpoint alone in the
  other.
\<close>

definition update_job ::
  "(string \<Rightarrow> string) \<Rightarrow> string \<Rightarrow> ReportStatus \<Rightarrow> int \<Rightarrow> ReportJob \<Rightarrow> ReportJob \<times> effect list" where
  "update_job href jobId data now j =
     (if job_id j = jobId then
        let updatedJob = j\<lparr>job_status := data\<lparr>timestamp := Some now\<rparr>\<rparr> in
        if rs_status data = Completed \<and> \<not> is_downloaded j then
          let finalJob = updatedJob\<lparr>downloaded := Some True\<rparr>
          in (finalJob, [Navigate (href jobId), JobCompleted finalJob])
        else if rs_status data = Failed then (updatedJob, [JobFailed updatedJob])
        else (updatedJob, [])
      else (j, []))"

definition onmessage ::
  "(string \<Rightarrow> string) \<Rightarrow> string \<Rightarrow> client \<Rightarrow> ReportStatus \<times> int \<Rightarrow> client" where
  "onmessage href jobId c msg =
     (let data = fst msg;
          now = snd msg;
          results = map (update_job href jobId data now) (jobs c)
      in \<lparr>jobs = map fst results,
          effects = effects c @ concat (map snd results) @
            (if rs_status data = Completed \<or> rs_status data = Failed
             then [CloseSource jobId] else [])\<rparr>)"

text \<open>The download addresses the handler has navigated to.\<close>

fun navigation_of :: "effect \<Rightarrow> string list" where
  "navigation_of (Navigate url) = [url]"
| "navigation_of (JobCompleted j) = []"
| "navigation_of (JobFailed j) = []"
| "navigation_of (CloseSource jobId) = []"

definition navigations :: "client \<Rightarrow> string list" where
  "navigations c = concat (map navigation_of (effects c))"

subsection \<open>Notions used to state the properties of the status stream\<close>

text \<open>
  A frame is final when it is an error or a record in a terminal status. \<open>emit\<close> is what
  one run of \<^verbatim>\<open>checkStatus\<close> does to a stream: it writes a frame and ends the stream when the
  frame is final. \<open>current_frame\<close> is the frame a run writes and \<open>rechecks\<close> tells whether
  the run schedules another one.
\<close>

fun final_frame :: "frame \<Rightarrow> bool" where
  "final_frame (ErrorFrame msg) = True"
| "final_frame (ReportFrame r) = (status r = Completed \<or> status r = Failed)"

definition emit :: "sse \<Rightarrow> frame \<Rightarrow> sse" where
  "emit st f = st\<lparr>frames := frames st @ [f], ended := (final_frame f \<or> ended st)\<rparr>"

definition current_frame :: "server \<Rightarrow> string \<Rightarrow> frame" where
  "current_frame s jobId =
     (case reports s jobId of
        None \<Rightarrow> ErrorFrame ''Report not found''
      | Some r \<Rightarrow> ReportFrame r)"

definition rechecks :: "server \<Rightarrow> string \<Rightarrow> bool" where
  "rechecks s jobId = (case reports s jobId of None \<Rightarrow> False | Some r \<Rightarrow> status r = Pending)"

text \<open>The streams that pending timers will write to.\<close>

fun watches :: "timer \<Rightarrow> nat list" where
  "watches (d, CheckStatus res jobId) = [res]"
| "watches (d, CompleteReport jobId nm now) = []"

definition watchers :: "server \<Rightarrow> nat list" where
  "watchers s = concat (map watches (timers s))"

text \<open>
  A stream is in order when it has a frame, no frame before the last is final, and it is
  ended exactly when its last frame is final.
\<close>

definition stream_ok :: "sse \<Rightarrow> bool" where
  "stream_ok st \<longleftrightarrow>
     frames st \<noteq> [] \<and> (\<forall>f \<in> set (butlast (frames st)). \<not> final_frame f) \<and>
     ended st = final_frame (last (frames st))"

definition streams_inv :: "server \<Rightarrow> bool" where
  "streams_inv s \<longleftrightarrow>
     (\<forall>st \<in> set (streams s). stream_ok st) \<and> distinct (watchers s) \<and>
     (\<forall>res \<in> set (watchers s). res < length (streams s) \<and> \<not> ended (streams s ! res))"

text \<open>The frame the status route writes first.\<close>

definition first_frame :: "server \<Rightarrow> string \<Rightarrow> int \<Rightarrow> frame" where
  "first_frame s jobId now =
     (case reports s jobId of
        None \<Rightarrow> ErrorFrame ''Report not found''
      | Some r \<Rightarrow> if createdAt r < now - 30 * 60 * 1000 then ErrorFrame ''Report expired''
                  else ReportFrame r)"

subsection \<open>Notions used to state the properties of the store\<close>

text \<open>
  The records the generation route and its timeout callback write, and the completions
  that are still scheduled: the job id, name and creation time each pending timeout
  callback has captured.
\<close>

definition pending_record :: "string \<Rightarrow> int \<Rightarrow> ReportData" where
  "pending_record nm now =
     \<lparr>status = Pending, name = nm, createdAt = now, filePath = None, error = None\<rparr>"

definition completed_record :: "string \<Rightarrow> string \<Rightarrow> int \<Rightarrow> ReportData" where
  "completed_record jobId nm now =
     \<lparr>status = Completed, name = nm, createdAt = now,
      filePath = Some (''/reports/'' @ replace_spaces (toLowerCase nm) @ ''-'' @ jobId @ ''.csv''),
      error = None\<rparr>"

fun completion_of :: "timer \<Rightarrow> (string \<times> string \<times> int) list" where
  "completion_of (d, CompleteReport jobId nm now) = [(jobId, nm, now)]"
| "completion_of (d, CheckStatus res jobId) = []"

definition completions :: "server \<Rightarrow> (string \<times> string \<times> int) list" where
  "completions s = concat (map completion_of (timers s))"

text \<open>
  The payload of a record fits its status: a pending record has neither file path nor
  error, a completed one has a file path and no error, a failed one an error and no file
  path.
\<close>

definition payload_ok :: "ReportData \<Rightarrow> bool" where
  "payload_ok r =
     (case status r of
        Pending \<Rightarrow> filePath r = None \<and> error r = None
      | Completed \<Rightarrow> \<not> falsy (filePath r) \<and> error r = None
      | Failed \<Rightarrow> filePath r = None \<and> error r \<noteq> None)"

text \<open>
  The invariant of the store, relative to the identifiers \<open>ids\<close> generated so far: every
  job in the store and every scheduled completion has a generated id, no job has two
  scheduled completions, a job whose completion is still scheduled is the pending record
  the route wrote, and every payload fits its status.
\<close>

definition store_inv :: "string list \<Rightarrow> server \<Rightarrow> bool" where
  "store_inv ids s \<longleftrightarrow>
     dom (reports s) \<subseteq> set ids \<and>
     fst ` set (completions s) \<subseteq> set ids \<and>
     distinct (map fst (completions s)) \<and>
     (\<forall>c \<in> set (completions s). \<forall>r. reports s (fst c) = Some r \<longrightarrow>
        r = pending_record (fst (snd c)) (snd (snd c))) \<and>
     (\<forall>j r. reports s j = Some r \<longrightarrow> payload_ok r)"

definition no_failed :: "server \<Rightarrow> bool" where
  "no_failed s \<longleftrightarrow> (\<forall>j r. reports s j = Some r \<longrightarrow> status r \<noteq> Failed)"

subsection \<open>Notions used to state the properties of the client hook\<close>

text \<open>
  Messages of several status streams, delivered one after the other: each is tagged with
  the job id of the stream whose handler receives it. \<open>triggered\<close> counts the navigations
  that the handler of the stream of \<open>jobId\<close> performs during a delivery, and \<open>undownloaded\<close>
  the list entries of that id whose \<^verbatim>\<open>downloaded\<close> flag is not set.
\<close>

fun deliver :: "(string \<Rightarrow> string) \<Rightarrow> client \<Rightarrow> (string \<times> ReportStatus \<times> int) list \<Rightarrow> client" where
  "deliver href c [] = c"
| "deliver href c ((k, msg) # msgs) = deliver href (onmessage href k c msg) msgs"

fun triggered ::
  "(string \<Rightarrow> string) \<Rightarrow> string \<Rightarrow> client \<Rightarrow> (string \<times> ReportStatus \<times> int) list \<Rightarrow> nat" where
  "triggered href jobId c [] = 0"
| "triggered href jobId c ((k, msg) # msgs) =
     (if k = jobId
      then length (navigations (onmessage href k c msg)) - length (navigations c) else 0) +
     triggered href jobId (onmessage href k c msg) msgs"

definition undownloaded :: "string \<Rightarrow> client \<Rightarrow> nat" where
  "undownloaded jobId c =
     length (filter (\<lambda>j. job_id j = jobId \<and> \<not> is_downloaded j) (jobs c))"

subsection \<open>Example data\<close>

text \<open>Concrete records and stores on which the theorems below are instantiated.\<close>

definition done_job :: ReportData where
  "done_job = \<lparr>status = Completed, name = ''Sales Report'', createdAt = 1000,
                filePath = Some ''/reports/sales-report-j1.csv'', error = None\<rparr>"

definition pending_job :: ReportData where
  "pending_job = \<lparr>status = Pending, name = ''Sales Report'', createdAt = 1000,
                filePath = None, error = None\<rparr>"

definition store_of :: "ReportData \<Rightarrow> server" where
  "store_of r = \<lparr>reports = [''j1'' \<mapsto> r], timers = [], streams = []\<rparr>"


definition stock_run :: "event list" where
  "stock_run = [Generate (Some ''Stock Report'') ''j2'' 5000]"

definition odd_name :: string where
  "odd_name = [CHR ''a'', CHR 0x01, CHR ''b'']"

definition odd_run :: "event list" where
  "odd_run = [Generate (Some odd_name) ''j3'' 1000, Fire 0]"

definition sales_run :: "event list" where
  "sales_run = [Generate (Some ''Sales Report'') ''j1'' 1000]"

definition watched_run :: "event list" where
  "watched_run = sales_run @ [Status ''j1'' 2000, Fire 0, Fire 0]"

definition downloads_url :: "string \<Rightarrow> string" where
  "downloads_url jobId = ''http://localhost:3000/api'' @ ''/download-report/'' @ jobId"

definition completed_msg :: "ReportStatus \<times> int" where
  "completed_msg = (\<lparr>rs_status = Completed, rs_error = None, timestamp = None\<rparr>, 9000)"

definition pending_job_view :: ReportJob where
  "pending_job_view =
     \<lparr>job_id = ''j1'',
      job_status = \<lparr>rs_status = Pending, rs_error = None, timestamp = Some 1000\<rparr>,
      job_name = ''Sales Report'', job_createdAt = 1000, downloaded = Some False\<rparr>"

definition one_job_client :: client where
  "one_job_client = \<lparr>jobs = [pending_job_view], effects = []\<rparr>"

definition job_view :: "string \<Rightarrow> status \<Rightarrow> int \<Rightarrow> ReportJob" where
  "job_view i st created =
     \<lparr>job_id = i, job_status = \<lparr>rs_status = st, rs_error = None, timestamp = None\<rparr>,
      job_name = ''Report'', job_createdAt = created, downloaded = Some False\<rparr>"

definition stored_jobs :: "ReportJob list" where
  "stored_jobs =
     [job_view ''a'' Pending 1000000, job_view ''b'' Completed 1000000,
      job_view ''c'' Failed 1000000, job_view ''d'' Pending 200000,
      job_view ''e'' Failed 100000]"

section \<open>What the handlers leave unchanged\<close>

lemma reports_write_frame [simp]: "reports (write_frame res f s) = reports s"
  by (simp add: write_frame_def)

lemma reports_end_stream [simp]: "reports (end_stream res s) = reports s"
  by (simp add: end_stream_def)

lemma timers_write_frame [simp]: "timers (write_frame res f s) = timers s"
  by (simp add: write_frame_def)

lemma timers_end_stream [simp]: "timers (end_stream res s) = timers s"
  by (simp add: end_stream_def)

lemma reports_checkStatus [simp]: "reports (checkStatus s res jobId) = reports s"
  by (simp add: checkStatus_def Let_def split: option.splits)

lemma reports_report_status:
  "reports (report_status s jobId now) =
     (case reports s jobId of
        None \<Rightarrow> reports s
      | Some r \<Rightarrow> if createdAt r < now - 30 * 60 * 1000
                  then (reports s)(jobId := None) else reports s)"
  by (simp add: report_status_def Let_def split: option.splits)

lemma reports_download_report:
  "reports (fst (download_report s jobId now)) =
     (case reports s jobId of
        None \<Rightarrow> reports s
      | Some r \<Rightarrow> if status r = Completed \<and> \<not> falsy (filePath r) \<and>
                     createdAt r < now - 30 * 60 * 1000
                  then (reports s)(jobId := None) else reports s)"
  by (simp add: download_report_def Let_def split: option.splits)

lemma timers_download_report [simp]: "timers (fst (download_report s jobId now)) = timers s"
  by (simp add: download_report_def Let_def split: option.splits)

lemma streams_download_report [simp]: "streams (fst (download_report s jobId now)) = streams s"
  by (simp add: download_report_def Let_def split: option.splits)

lemma streams_generate_report [simp]:
  "streams (fst (generate_report s reqName jobId now)) = streams s"
  by (simp add: generate_report_def Let_def)

lemma streams_complete_report [simp]: "streams (complete_report s jobId nm now) = streams s"
  by (simp add: complete_report_def simulate_generation_def)

lemma timers_complete_report [simp]: "timers (complete_report s jobId nm now) = timers s"
  by (simp add: complete_report_def simulate_generation_def)

section \<open>The download route\<close>

lemma download_not_found:
  "reports s jobId = None \<Longrightarrow>
   download_report s jobId now =
     (s, \<lparr>statusCode = 404, headers = [], body = JsonError ''Report not found''\<rparr>)"
  by (simp add: download_report_def)

lemma download_not_ready:
  "reports s jobId = Some r \<Longrightarrow> status r \<noteq> Completed \<or> falsy (filePath r) \<Longrightarrow>
   download_report s jobId now =
     (s, \<lparr>statusCode = 400, headers = [], body = JsonError ''Report is not ready for download''\<rparr>)"
  by (auto simp add: download_report_def)

lemma download_expired:
  "reports s jobId = Some r \<Longrightarrow> status r = Completed \<Longrightarrow> \<not> falsy (filePath r) \<Longrightarrow>
   createdAt r < now - 30 * 60 * 1000 \<Longrightarrow>
   download_report s jobId now =
     (s\<lparr>reports := (reports s)(jobId := None)\<rparr>,
      \<lparr>statusCode = 400, headers = [], body = JsonError ''Report has expired''\<rparr>)"
  by (simp add: download_report_def)

lemma download_header_rejected:
  "reports s jobId = Some r \<Longrightarrow> status r = Completed \<Longrightarrow> \<not> falsy (filePath r) \<Longrightarrow>
   \<not> createdAt r < now - 30 * 60 * 1000 \<Longrightarrow>
   list_ex invalid_header_char
     (''attachment; filename='' @ replace_spaces (toLowerCase (name r)) @ ''.csv'') \<Longrightarrow>
   download_report s jobId now = (s, \<lparr>statusCode = 500, headers = [], body = ErrorPage\<rparr>)"
  by (simp add: download_report_def Let_def)

lemma download_success:
  "reports s jobId = Some r \<Longrightarrow> status r = Completed \<Longrightarrow> \<not> falsy (filePath r) \<Longrightarrow>
   \<not> createdAt r < now - 30 * 60 * 1000 \<Longrightarrow>
   \<not> list_ex invalid_header_char
     (''attachment; filename='' @ replace_spaces (toLowerCase (name r)) @ ''.csv'') \<Longrightarrow>
   download_report s jobId now =
     (s, \<lparr>statusCode = 200,
          headers = [(''Content-Type'', ''text/csv''),
                     (''Content-Disposition'',
                      ''attachment; filename='' @ replace_spaces (toLowerCase (name r)) @ ''.csv'')],
          body = Text (csvContent r)\<rparr>)"
  by (simp add: download_report_def Let_def)

lemmas string_defs = toLowerCase_def toLowerCase_char_def upper_letters_def lower_letters_def
  is_space_def invalid_header_char_def

lemma stock_run_pending:
  "reports (exec stock_run) ''j2'' = Some (pending_record ''Stock Report'' 5000)"
  by (simp add: stock_run_def exec_def init_def generate_report_def falsy_def
        pending_record_def Let_def)

lemma odd_run_completed:
  "reports (exec odd_run) ''j3'' =
     Some \<lparr>status = Completed, name = odd_name, createdAt = 1000,
           filePath = Some (''/reports/'' @ odd_name @ ''-j3.csv''), error = None\<rparr>"
  by (simp add: odd_run_def odd_name_def exec_def init_def generate_report_def fire_def
        complete_report_def simulate_generation_def falsy_def string_defs Let_def)

text \<open>
  Claim C4, as stated, fails in two places. A job that is past the expiry window but not
  completed is answered \<^verbatim>\<open>Report is not ready for download\<close>, not \<^verbatim>\<open>Report has expired\<close>, and
  its record is not deleted: the readiness test comes first. And a job that is completed
  and within the window is not always served: when its name holds a character that may not
  stand in a header value (here U+0001), setting the Content-Disposition header throws and
  the answer is 500.
\<close>

theorem download_expired_unready_or_unsendable:
  "reports (exec stock_run) ''j2'' = Some (pending_record ''Stock Report'' 5000) \<and>
   createdAt (pending_record ''Stock Report'' 5000) < 1900000 - 30 * 60 * 1000 \<and>
   download_report (exec stock_run) ''j2'' 1900000 =
     (exec stock_run,
      \<lparr>statusCode = 400, headers = [], body = JsonError ''Report is not ready for download''\<rparr>) \<and>
   reports (exec odd_run) ''j3'' =
     Some \<lparr>status = Completed, name = odd_name, createdAt = 1000,
           filePath = Some (''/reports/'' @ odd_name @ ''-j3.csv''), error = None\<rparr> \<and>
   \<not> (1000 :: int) < 9000 - 30 * 60 * 1000 \<and>
   download_report (exec odd_run) ''j3'' 9000 =
     (exec odd_run, \<lparr>statusCode = 500, headers = [], body = ErrorPage\<rparr>)"
proof -
  have a: "download_report (exec stock_run) ''j2'' 1900000 =
     (exec stock_run,
      \<lparr>statusCode = 400, headers = [], body = JsonError ''Report is not ready for download''\<rparr>)"
    using stock_run_pending by (simp add: download_report_def pending_record_def)
  have b: "download_report (exec odd_run) ''j3'' 9000 =
     (exec odd_run, \<lparr>statusCode = 500, headers = [], body = ErrorPage\<rparr>)"
    by (rule download_header_rejected [OF odd_run_completed])
       (simp_all add: falsy_def odd_name_def string_defs)
  from a b stock_run_pending odd_run_completed show ?thesis
    by (simp add: pending_record_def)
qed

text \<open>
  Claim C4, amended. The download route answers 404 with \<^verbatim>\<open>Report not found\<close> when the
  store has no job of the requested id; 400 with \<^verbatim>\<open>Report is not ready for download\<close> when
  the job's status is not completed or its file path is missing, whatever its age; 400
  with \<^verbatim>\<open>Report has expired\<close>, deleting the record, when a job that is completed and has a
  file path is past the expiry window; and, for a job that is completed, has a file path,
  is within the window and whose Content-Disposition value has no character that a header
  may not hold, 200 with the CSV text as body, the header Content-Type set to text/csv and
  a Content-Disposition header that starts with attachment, the server state unchanged.
\<close>

theorem download_report_answers:
  "(reports s jobId = None \<longrightarrow>
      download_report s jobId now =
        (s, \<lparr>statusCode = 404, headers = [], body = JsonError ''Report not found''\<rparr>)) \<and>
   (\<forall>r. reports s jobId = Some r \<and> (status r \<noteq> Completed \<or> falsy (filePath r)) \<longrightarrow>
      download_report s jobId now =
        (s, \<lparr>statusCode = 400, headers = [],
             body = JsonError ''Report is not ready for download''\<rparr>)) \<and>
   (\<forall>r. reports s jobId = Some r \<and> status r = Completed \<and> \<not> falsy (filePath r) \<and>
        createdAt r < now - 30 * 60 * 1000 \<longrightarrow>
      download_report s jobId now =
        (s\<lparr>reports := (reports s)(jobId := None)\<rparr>,
         \<lparr>statusCode = 400, headers = [], body = JsonError ''Report has expired''\<rparr>)) \<and>
   (\<forall>r. reports s jobId = Some r \<and> status r = Completed \<and> \<not> falsy (filePath r) \<and>
        \<not> createdAt r < now - 30 * 60 * 1000 \<and>
        \<not> list_ex invalid_header_char
            (''attachment; filename='' @ replace_spaces (toLowerCase (name r)) @ ''.csv'') \<longrightarrow>
      fst (download_report s jobId now) = s \<and>
      statusCode (snd (download_report s jobId now)) = 200 \<and>
      map_of (headers (snd (download_report s jobId now))) ''Content-Type'' = Some ''text/csv'' \<and>
      map_of (headers (snd (download_report s jobId now))) ''Content-Disposition'' =
        Some (''attachment; filename='' @ replace_spaces (toLowerCase (name r)) @ ''.csv'') \<and>
      body (snd (download_report s jobId now)) = Text (csvContent r) \<and>
      startsWith (csvContent r) ''id,name,value\<newline>'')"
proof -
  have a: "reports s jobId = None \<longrightarrow>
      download_report s jobId now =
        (s, \<lparr>statusCode = 404, headers = [], body = JsonError ''Report not found''\<rparr>)"
    by (simp add: download_not_found)
  have b: "\<forall>r. reports s jobId = Some r \<and> (status r \<noteq> Completed \<or> falsy (filePath r)) \<longrightarrow>
      download_report s jobId now =
        (s, \<lparr>statusCode = 400, headers = [],
             body = JsonError ''Report is not ready for download''\<rparr>)"
    using download_not_ready [of s jobId _ now] by blast
  have c: "\<forall>r. reports s jobId = Some r \<and> status r = Completed \<and> \<not> falsy (filePath r) \<and>
        createdAt r < now - 30 * 60 * 1000 \<longrightarrow>
      download_report s jobId now =
        (s\<lparr>reports := (reports s)(jobId := None)\<rparr>,
         \<lparr>statusCode = 400, headers = [], body = JsonError ''Report has expired''\<rparr>)"
    using download_expired [of s jobId _ now] by blast
  have d: "\<forall>r. reports s jobId = Some r \<and> status r = Completed \<and> \<not> falsy (filePath r) \<and>
        \<not> createdAt r < now - 30 * 60 * 1000 \<and>
        \<not> list_ex invalid_header_char
            (''attachment; filename='' @ replace_spaces (toLowerCase (name r)) @ ''.csv'') \<longrightarrow>
      fst (download_report s jobId now) = s \<and>
      statusCode (snd (download_report s jobId now)) = 200 \<and>
      map_of (headers (snd (download_report s jobId now))) ''Content-Type'' = Some ''text/csv'' \<and>
      map_of (headers (snd (download_report s jobId now))) ''Content-Disposition'' =
        Some (''attachment; filename='' @ replace_spaces (toLowerCase (name r)) @ ''.csv'') \<and>
      body (snd (download_report s jobId now)) = Text (csvContent r) \<and>
      startsWith (csvContent r) ''id,name,value\<newline>''"
  proof (intro allI impI)
    fix r
    assume h: "reports s jobId = Some r \<and> status r = Completed \<and> \<not> falsy (filePath r) \<and>
        \<not> createdAt r < now - 30 * 60 * 1000 \<and>
        \<not> list_ex invalid_header_char
            (''attachment; filename='' @ replace_spaces (toLowerCase (name r)) @ ''.csv'')"
    then have "download_report s jobId now =
     (s, \<lparr>statusCode = 200,
          headers = [(''Content-Type'', ''text/csv''),
                     (''Content-Disposition'',
                      ''attachment; filename='' @ replace_spaces (toLowerCase (name r)) @ ''.csv'')],
          body = Text (csvContent r)\<rparr>)"
      using download_success [of s jobId r now] by blast
    then show "fst (download_report s jobId now) = s \<and>
      statusCode (snd (download_report s jobId now)) = 200 \<and>
      map_of (headers (snd (download_report s jobId now))) ''Content-Type'' = Some ''text/csv'' \<and>
      map_of (headers (snd (download_report s jobId now))) ''Content-Disposition'' =
        Some (''attachment; filename='' @ replace_spaces (toLowerCase (name r)) @ ''.csv'') \<and>
      body (snd (download_report s jobId now)) = Text (csvContent r) \<and>
      startsWith (csvContent r) ''id,name,value\<newline>''"
      by (simp add: csvContent_def)
  qed
  from a b c d show ?thesis by (intro conjI)
qed

lemma done_job_sendable:
  "\<not> list_ex invalid_header_char
      (''attachment; filename='' @ replace_spaces (toLowerCase (name done_job)) @ ''.csv'')"
  by (simp add: done_job_def string_defs)

theorem download_report_answers_witness:
  "download_report init ''j1'' 2000 =
     (init, \<lparr>statusCode = 404, headers = [], body = JsonError ''Report not found''\<rparr>) \<and>
   download_report (store_of pending_job) ''j1'' 2000 =
     (store_of pending_job, \<lparr>statusCode = 400, headers = [],
        body = JsonError ''Report is not ready for download''\<rparr>) \<and>
   download_report (store_of done_job) ''j1'' 1801001 =
     ((store_of done_job)\<lparr>reports := (reports (store_of done_job))(''j1'' := None)\<rparr>,
      \<lparr>statusCode = 400, headers = [], body = JsonError ''Report has expired''\<rparr>) \<and>
   statusCode (snd (download_report (store_of done_job) ''j1'' 1801000)) = 200 \<and>
   map_of (headers (snd (download_report (store_of done_job) ''j1'' 1801000))) ''Content-Type'' =
     Some ''text/csv'' \<and>
   map_of (headers (snd (download_report (store_of done_job) ''j1'' 1801000)))
     ''Content-Disposition'' = Some ''attachment; filename=sales-report.csv'' \<and>
   body (snd (download_report (store_of done_job) ''j1'' 1801000)) = Text (csvContent done_job)"
  using download_report_answers [of init "''j1''" 2000]
    download_report_answers [of "store_of pending_job" "''j1''" 2000]
    download_report_answers [of "store_of done_job" "''j1''" 1801001]
    download_report_answers [of "store_of done_job" "''j1''" 1801000]
    done_job_sendable
  by (simp add: init_def store_of_def pending_job_def done_job_def falsy_def string_defs)

section \<open>The status stream\<close>

lemma write_then_end:
  "streams (end_stream res (write_frame res f s)) =
     (streams s)[res := (streams s ! res)\<lparr>frames := frames (streams s ! res) @ [f], ended := True\<rparr>]"
proof (cases "res < length (streams s)")
  case True
  then show ?thesis by (simp add: end_stream_def write_frame_def)
next
  case False
  then show ?thesis by (simp add: end_stream_def write_frame_def list_update_beyond)
qed

lemma status_not_terminal: "(\<not> (status r = Completed \<or> status r = Failed)) = (status r = Pending)"
  by (cases "status r") simp_all

lemma final_current_frame: "final_frame (current_frame s jobId) = (\<not> rechecks s jobId)"
  by (simp add: current_frame_def rechecks_def status_not_terminal [symmetric] split: option.splits)

lemma checkStatus_streams:
  "streams (checkStatus s res jobId) =
     (streams s)[res := emit (streams s ! res) (current_frame s jobId)]"
proof (cases "reports s jobId")
  case None
  then show ?thesis by (simp add: checkStatus_def write_then_end emit_def current_frame_def)
next
  case (Some r)
  show ?thesis
  proof (cases "status r = Completed \<or> status r = Failed")
    case True
    with Some show ?thesis
      by (simp add: checkStatus_def write_then_end emit_def Let_def current_frame_def)
  next
    case False
    with Some show ?thesis
      by (cases "res < length (streams s)")
         (simp_all add: checkStatus_def write_frame_def emit_def Let_def current_frame_def)
  qed
qed

lemma checkStatus_timers:
  "timers (checkStatus s res jobId) =
     timers s @ (if rechecks s jobId then [(50000, CheckStatus res jobId)] else [])"
proof (cases "reports s jobId")
  case None
  then show ?thesis by (simp add: checkStatus_def rechecks_def)
next
  case (Some r)
  then show ?thesis
    by (cases "status r") (simp_all add: checkStatus_def rechecks_def Let_def)
qed

lemma watchers_checkStatus:
  "watchers (checkStatus s res jobId) = watchers s @ (if rechecks s jobId then [res] else [])"
  by (simp add: watchers_def checkStatus_timers)

lemma streams_inv_init: "streams_inv init"
  by (simp add: streams_inv_def init_def watchers_def)

lemma emit_ok:
  "\<forall>f \<in> set (frames st). \<not> final_frame f \<Longrightarrow> \<not> ended st \<Longrightarrow> stream_ok (emit st f)"
  by (simp add: stream_ok_def emit_def)

lemma open_stream_frames:
  assumes ok: "stream_ok st" and op: "\<not> ended st" and f: "f \<in> set (frames st)"
  shows "\<not> final_frame f"
proof -
  from ok have "butlast (frames st) @ [last (frames st)] = frames st"
    by (simp add: stream_ok_def)
  with f have "f \<in> set (butlast (frames st) @ [last (frames st)])" by simp
  then have "f \<in> set (butlast (frames st)) \<or> f = last (frames st)" by auto
  with ok op show ?thesis by (auto simp: stream_ok_def)
qed

lemma ended_emit: "ended (emit st f) = (final_frame f \<or> ended st)"
  by (simp add: emit_def)

lemma streams_inv_generate:
  "streams_inv s \<Longrightarrow> streams_inv (fst (generate_report s reqName jobId now))"
  by (simp add: streams_inv_def generate_report_def watchers_def Let_def)

lemma streams_inv_download:
  "streams_inv s \<Longrightarrow> streams_inv (fst (download_report s jobId now))"
  by (simp add: streams_inv_def download_report_def watchers_def Let_def split: option.splits)

lemma streams_inv_complete:
  "streams_inv s \<Longrightarrow> streams_inv (complete_report s jobId nm now)"
  by (simp add: streams_inv_def complete_report_def simulate_generation_def watchers_def)

lemma streams_inv_checkStatus:
  assumes others: "\<forall>i < length (streams s). i \<noteq> res \<longrightarrow> stream_ok (streams s ! i)"
    and res: "res < length (streams s)" "\<not> ended (streams s ! res)"
      "\<forall>f \<in> set (frames (streams s ! res)). \<not> final_frame f"
    and ws: "distinct (watchers s)" "res \<notin> set (watchers s)"
      "\<forall>r \<in> set (watchers s). r < length (streams s) \<and> \<not> ended (streams s ! r)"
  shows "streams_inv (checkStatus s res jobId)"
proof -
  let ?f = "current_frame s jobId"
  have st: "streams (checkStatus s res jobId) = (streams s)[res := emit (streams s ! res) ?f]"
    by (rule checkStatus_streams)
  have ok: "stream_ok (emit (streams s ! res) ?f)"
    using res by (simp add: emit_ok)
  have all_ok: "\<forall>st \<in> set (streams (checkStatus s res jobId)). stream_ok st"
    unfolding st all_set_conv_all_nth using others ok res(1)
    by (auto simp: nth_list_update)
  have dist: "distinct (watchers (checkStatus s res jobId))"
    using ws by (simp add: watchers_checkStatus)
  have live: "\<forall>r \<in> set (watchers (checkStatus s res jobId)).
      r < length (streams (checkStatus s res jobId)) \<and> \<not> ended (streams (checkStatus s res jobId) ! r)"
  proof
    fix r assume r: "r \<in> set (watchers (checkStatus s res jobId))"
    show "r < length (streams (checkStatus s res jobId)) \<and> \<not> ended (streams (checkStatus s res jobId) ! r)"
    proof (cases "r = res")
      case True
      with r ws(2) have "rechecks s jobId"
        by (simp add: watchers_checkStatus split: if_splits)
      then have "\<not> final_frame ?f" by (simp add: final_current_frame)
      with True res show ?thesis by (simp add: st ended_emit)
    next
      case False
      with r have "r \<in> set (watchers s)"
        by (simp add: watchers_checkStatus split: if_splits)
      with ws(3) False show ?thesis by (simp add: st)
    qed
  qed
  from all_ok dist live show ?thesis by (simp add: streams_inv_def)
qed

lemma report_status_streams:
  "streams (report_status s jobId now) =
     streams s @ [emit \<lparr>frames = [], ended = False\<rparr> (first_frame s jobId now)]"
proof (cases "reports s jobId")
  case None
  then show ?thesis
    by (simp add: report_status_def first_frame_def write_then_end emit_def Let_def)
next
  case (Some r)
  show ?thesis
  proof (cases "createdAt r < now - 30 * 60 * 1000")
    case True
    with Some show ?thesis
      by (simp add: report_status_def first_frame_def write_then_end emit_def Let_def)
  next
    case False
    with Some show ?thesis
      by (simp add: report_status_def first_frame_def checkStatus_streams current_frame_def Let_def)
  qed
qed

lemma report_status_timers:
  "timers (report_status s jobId now) =
     timers s @ (if final_frame (first_frame s jobId now) then []
                 else [(50000, CheckStatus (length (streams s)) jobId)])"
proof (cases "reports s jobId")
  case None
  then show ?thesis
    by (simp add: report_status_def first_frame_def Let_def)
next
  case (Some r)
  show ?thesis
  proof (cases "createdAt r < now - 30 * 60 * 1000")
    case True
    with Some show ?thesis
      by (simp add: report_status_def first_frame_def Let_def)
  next
    case False
    with Some show ?thesis
      by (cases "status r")
         (simp_all add: report_status_def first_frame_def checkStatus_timers rechecks_def Let_def)
  qed
qed

lemma streams_inv_report_status:
  assumes inv: "streams_inv s"
  shows "streams_inv (report_status s jobId now)"
proof -
  let ?f = "first_frame s jobId now"
  let ?n = "length (streams s)"
  have new_ok: "stream_ok (emit \<lparr>frames = [], ended = False\<rparr> ?f)"
    by (simp add: emit_ok)
  with inv have all_ok: "\<forall>st \<in> set (streams (report_status s jobId now)). stream_ok st"
    by (simp add: report_status_streams streams_inv_def)
  have ws: "watchers (report_status s jobId now) =
      watchers s @ (if final_frame ?f then [] else [?n])"
    by (simp add: watchers_def report_status_timers)
  from inv have old: "\<forall>r \<in> set (watchers s). r < ?n \<and> \<not> ended (streams s ! r)"
    by (simp add: streams_inv_def)
  then have "?n \<notin> set (watchers s)" by auto
  with inv have dist: "distinct (watchers (report_status s jobId now))"
    by (simp add: ws streams_inv_def)
  have live: "\<forall>r \<in> set (watchers (report_status s jobId now)).
      r < length (streams (report_status s jobId now)) \<and>
      \<not> ended (streams (report_status s jobId now) ! r)"
    using old by (auto simp: ws report_status_streams nth_append ended_emit)
  from all_ok dist live show ?thesis by (simp add: streams_inv_def)
qed

lemma watchers_remove:
  "timers s = xs @ t # ys \<Longrightarrow>
   watchers s = concat (map watches xs) @ watches t @ concat (map watches ys)"
  by (simp add: watchers_def)

lemma fire_split:
  assumes "k < length (timers s)"
  shows "\<exists>xs t ys. timers s = xs @ t # ys \<and>
           fire s k = run_task (s\<lparr>timers := xs @ ys\<rparr>) (snd t)"
proof -
  from assms have "timers s = take k (timers s) @ (timers s ! k) # drop (Suc k) (timers s)"
    by (simp add: id_take_nth_drop)
  moreover from assms have
    "fire s k = run_task (s\<lparr>timers := take k (timers s) @ drop (Suc k) (timers s)\<rparr>)
                  (snd (timers s ! k))"
    by (simp add: fire_def)
  ultimately show ?thesis by blast
qed

lemma fire_beyond: "\<not> k < length (timers s) \<Longrightarrow> fire s k = s"
  by (simp add: fire_def)

lemma streams_inv_fire:
  assumes inv: "streams_inv s"
  shows "streams_inv (fire s k)"
proof (cases "k < length (timers s)")
  case False
  with inv show ?thesis by (simp add: fire_beyond)
next
  case True
  from fire_split [OF True] obtain xs t ys where
    ts: "timers s = xs @ t # ys" and f: "fire s k = run_task (s\<lparr>timers := xs @ ys\<rparr>) (snd t)"
    by blast
  let ?s = "s\<lparr>timers := xs @ ys\<rparr>"
  obtain d tk where t: "t = (d, tk)" by (cases t)
  have w_s: "watchers s = concat (map watches xs) @ watches t @ concat (map watches ys)"
    using ts by (rule watchers_remove)
  have w_s': "watchers ?s = concat (map watches xs) @ concat (map watches ys)"
    by (simp add: watchers_def)
  from inv w_s w_s' have sub: "set (watchers ?s) \<subseteq> set (watchers s)" and dist: "distinct (watchers ?s)"
    by (auto simp: streams_inv_def)
  show ?thesis
  proof (cases tk)
    case (CompleteReport jobId nm now)
    have "streams_inv ?s"
      using inv sub dist by (auto simp: streams_inv_def)
    then show ?thesis
      by (simp add: f t CompleteReport streams_inv_complete)
  next
    case (CheckStatus res jobId)
    with w_s t have w: "watchers s = concat (map watches xs) @ res # concat (map watches ys)"
      by simp
    with inv have res: "res < length (streams s)" "\<not> ended (streams s ! res)"
      by (simp_all add: streams_inv_def)
    from inv w w_s' have notin: "res \<notin> set (watchers ?s)"
      by (auto simp: streams_inv_def)
    from inv res have "stream_ok (streams s ! res)" by (simp add: streams_inv_def)
    with res have nf: "\<forall>f \<in> set (frames (streams s ! res)). \<not> final_frame f"
      using open_stream_frames by blast
    have "streams_inv (checkStatus ?s res jobId)"
    proof (rule streams_inv_checkStatus)
      show "\<forall>i<length (streams ?s). i \<noteq> res \<longrightarrow> stream_ok (streams ?s ! i)"
        using inv by (simp add: streams_inv_def)
      show "res < length (streams ?s)" using res by simp
      show "\<not> ended (streams ?s ! res)" using res by simp
      show "\<forall>f\<in>set (frames (streams ?s ! res)). \<not> final_frame f" using nf by simp
      show "distinct (watchers ?s)" by (rule dist)
      show "res \<notin> set (watchers ?s)" by (rule notin)
      show "\<forall>r\<in>set (watchers ?s). r < length (streams ?s) \<and> \<not> ended (streams ?s ! r)"
        using inv sub by (auto simp: streams_inv_def)
    qed
    then show ?thesis by (simp add: f t CheckStatus)
  qed
qed

lemma streams_inv_step: "streams_inv s \<Longrightarrow> streams_inv (step s e)"
  by (cases e)
     (simp_all add: streams_inv_generate streams_inv_report_status streams_inv_download
        streams_inv_fire)

lemma exec_snoc: "exec (es @ [e]) = step (exec es) e"
  by (simp add: exec_def)

lemma streams_inv_exec: "streams_inv (exec es)"
proof (induction es rule: rev_induct)
  case Nil
  show ?case by (simp add: exec_def streams_inv_init)
next
  case (snoc e es)
  then show ?case by (simp add: exec_snoc streams_inv_step)
qed

section \<open>The invariant of the store\<close>

lemma generate_invalid:
  "falsy reqName \<Longrightarrow> generate_report s reqName jobId now =
     (s, \<lparr>statusCode = 400, headers = [], body = JsonError ''Report name is required''\<rparr>)"
  by (simp add: generate_report_def)

lemma reports_generate:
  "\<not> falsy reqName \<Longrightarrow>
   reports (fst (generate_report s reqName jobId now)) =
     (reports s)(jobId \<mapsto> pending_record (the reqName) now)"
  by (simp add: generate_report_def pending_record_def Let_def)

lemma timers_generate:
  "\<not> falsy reqName \<Longrightarrow>
   timers (fst (generate_report s reqName jobId now)) =
     timers s @ [(if str_includes (toLowerCase (the reqName)) ''sales'' then 8000 else 5000,
                  CompleteReport jobId (the reqName) now)]"
  by (simp add: generate_report_def Let_def)

lemma completions_generate:
  "\<not> falsy reqName \<Longrightarrow>
   completions (fst (generate_report s reqName jobId now)) =
     completions s @ [(jobId, the reqName, now)]"
  by (simp add: completions_def timers_generate)

lemma completions_report_status [simp]:
  "completions (report_status s jobId now) = completions s"
  by (simp add: completions_def report_status_timers)

lemma completions_download_report [simp]:
  "completions (fst (download_report s jobId now)) = completions s"
  by (simp add: completions_def)

lemma completions_checkStatus [simp]:
  "completions (checkStatus s res jobId) = completions s"
  by (simp add: completions_def checkStatus_timers)

lemma reports_complete_report:
  "reports (complete_report s jobId nm now) = (reports s)(jobId \<mapsto> completed_record jobId nm now)"
  by (simp add: complete_report_def simulate_generation_def completed_record_def)

lemma completions_complete_report [simp]:
  "completions (complete_report s jobId nm now) = completions s"
  by (simp add: completions_def)

lemma payload_ok_pending [simp]: "payload_ok (pending_record nm now)"
  by (simp add: payload_ok_def pending_record_def)

lemma payload_ok_completed [simp]: "payload_ok (completed_record jobId nm now)"
  by (simp add: payload_ok_def completed_record_def falsy_def)

lemma store_inv_generate:
  assumes inv: "store_inv ids s" and ok: "\<not> falsy reqName" and fresh: "jobId \<notin> set ids"
  shows "store_inv (ids @ [jobId]) (fst (generate_report s reqName jobId now))"
proof -
  let ?s = "fst (generate_report s reqName jobId now)"
  have r: "reports ?s = (reports s)(jobId \<mapsto> pending_record (the reqName) now)"
    using ok by (rule reports_generate)
  have c: "completions ?s = completions s @ [(jobId, the reqName, now)]"
    using ok by (rule completions_generate)
  from inv fresh have notin: "jobId \<notin> fst ` set (completions s)"
    by (auto simp: store_inv_def)
  have 1: "dom (reports ?s) \<subseteq> set (ids @ [jobId])"
    using inv by (auto simp: r store_inv_def)
  have 2: "fst ` set (completions ?s) \<subseteq> set (ids @ [jobId])"
    using inv by (auto simp: c store_inv_def)
  have 3: "distinct (map fst (completions ?s))"
    using inv notin by (simp add: c store_inv_def)
  have 4: "\<forall>c \<in> set (completions ?s). \<forall>r. reports ?s (fst c) = Some r \<longrightarrow>
        r = pending_record (fst (snd c)) (snd (snd c))"
  proof
    fix x assume x: "x \<in> set (completions ?s)"
    show "\<forall>r. reports ?s (fst x) = Some r \<longrightarrow> r = pending_record (fst (snd x)) (snd (snd x))"
    proof (cases "x \<in> set (completions s)")
      case True
      with notin have "fst x \<noteq> jobId" by auto
      with inv True show ?thesis by (simp add: r store_inv_def)
    next
      case False
      with x have "x = (jobId, the reqName, now)" by (simp add: c)
      then show ?thesis by (simp add: r)
    qed
  qed
  have 5: "\<forall>j r. reports ?s j = Some r \<longrightarrow> payload_ok r"
    using inv by (auto simp: r store_inv_def)
  from 1 2 3 4 5 show ?thesis by (simp add: store_inv_def)
qed

text \<open>Deleting a job keeps the invariant.\<close>

lemma store_inv_shrink:
  assumes inv: "store_inv ids s" and c: "completions s' = completions s"
    and r: "reports s' = reports s \<or> reports s' = (reports s)(j := None)"
  shows "store_inv ids s'"
proof -
  from r have sub: "\<And>k v. reports s' k = Some v \<Longrightarrow> reports s k = Some v"
    by (auto split: if_splits)
  then have "dom (reports s') \<subseteq> dom (reports s)" by auto
  with inv sub show ?thesis
    unfolding store_inv_def c by blast
qed

lemma store_inv_report_status:
  assumes "store_inv ids s"
  shows "store_inv ids (report_status s jobId now)"
proof (rule store_inv_shrink [OF assms, where j = jobId])
  show "completions (report_status s jobId now) = completions s" by simp
  show "reports (report_status s jobId now) = reports s \<or>
        reports (report_status s jobId now) = (reports s)(jobId := None)"
    by (auto simp: reports_report_status split: option.splits)
qed

lemma store_inv_download:
  assumes "store_inv ids s"
  shows "store_inv ids (fst (download_report s jobId now))"
proof (rule store_inv_shrink [OF assms, where j = jobId])
  show "completions (fst (download_report s jobId now)) = completions s" by simp
  show "reports (fst (download_report s jobId now)) = reports s \<or>
        reports (fst (download_report s jobId now)) = (reports s)(jobId := None)"
    by (auto simp: reports_download_report split: option.splits)
qed

lemma store_inv_checkStatus:
  assumes "store_inv ids s"
  shows "store_inv ids (checkStatus s res jobId)"
  by (rule store_inv_shrink [OF assms, where j = jobId]) simp_all

lemma completions_remove:
  "timers s = xs @ t # ys \<Longrightarrow>
   completions s = concat (map completion_of xs) @ completion_of t @ concat (map completion_of ys)"
  by (simp add: completions_def)

lemma store_inv_fire:
  assumes inv: "store_inv ids s"
  shows "store_inv ids (fire s k)"
proof (cases "k < length (timers s)")
  case False
  with inv show ?thesis by (simp add: fire_beyond)
next
  case True
  from fire_split [OF True] obtain xs t ys where
    ts: "timers s = xs @ t # ys" and f: "fire s k = run_task (s\<lparr>timers := xs @ ys\<rparr>) (snd t)"
    by blast
  let ?s = "s\<lparr>timers := xs @ ys\<rparr>"
  obtain d tk where t: "t = (d, tk)" by (cases t)
  have c_s: "completions s =
      concat (map completion_of xs) @ completion_of t @ concat (map completion_of ys)"
    using ts by (rule completions_remove)
  have c_s': "completions ?s = concat (map completion_of xs) @ concat (map completion_of ys)"
    by (simp add: completions_def)
  show ?thesis
  proof (cases tk)
    case (CheckStatus res jobId)
    with c_s c_s' t have "completions ?s = completions s" by simp
    with inv have "store_inv ids ?s" by (simp add: store_inv_def)
    then show ?thesis by (simp add: f t CheckStatus store_inv_checkStatus)
  next
    case (CompleteReport jobId nm now)
    let ?s' = "complete_report ?s jobId nm now"
    from c_s t CompleteReport have c: "completions s =
        concat (map completion_of xs) @ (jobId, nm, now) # concat (map completion_of ys)"
      by simp
    have r: "reports ?s' = (reports s)(jobId \<mapsto> completed_record jobId nm now)"
      by (simp add: reports_complete_report)
    have c': "completions ?s' = concat (map completion_of xs) @ concat (map completion_of ys)"
      by (simp add: c_s')
    from inv c have dist: "distinct (map fst (completions s))" and
      jid: "jobId \<in> set ids" by (auto simp: store_inv_def)
    from dist have notin: "jobId \<notin> fst ` set (completions ?s')"
      unfolding c c' by auto
    have sub: "set (completions ?s') \<subseteq> set (completions s)"
      unfolding c c' by auto
    have 1: "dom (reports ?s') \<subseteq> set ids"
      using inv jid by (auto simp: r store_inv_def)
    from sub have "fst ` set (completions ?s') \<subseteq> fst ` set (completions s)"
      by (rule image_mono)
    moreover from inv have "fst ` set (completions s) \<subseteq> set ids"
      by (simp add: store_inv_def)
    ultimately have 2: "fst ` set (completions ?s') \<subseteq> set ids"
      by (rule subset_trans)
    have 3: "distinct (map fst (completions ?s'))"
      using dist unfolding c c' by simp
    have 4: "\<forall>c \<in> set (completions ?s'). \<forall>r. reports ?s' (fst c) = Some r \<longrightarrow>
        r = pending_record (fst (snd c)) (snd (snd c))"
    proof
      fix x assume x: "x \<in> set (completions ?s')"
      with notin have "fst x \<noteq> jobId" by auto
      moreover from x sub have "x \<in> set (completions s)" by auto
      ultimately show "\<forall>r. reports ?s' (fst x) = Some r \<longrightarrow>
          r = pending_record (fst (snd x)) (snd (snd x))"
        using inv by (simp add: r store_inv_def)
    qed
    have 5: "\<forall>j r. reports ?s' j = Some r \<longrightarrow> payload_ok r"
      using inv by (auto simp: r store_inv_def)
    from 1 2 3 4 5 have "store_inv ids ?s'" by (simp add: store_inv_def)
    then show ?thesis by (simp add: f t CompleteReport)
  qed
qed

lemma store_inv_step:
  assumes inv: "store_inv ids s" and fresh: "set (uuid_of e) \<inter> set ids = {}"
  shows "store_inv (ids @ uuid_of e) (step s e)"
proof (cases e)
  case (Generate reqName jobId now)
  show ?thesis
  proof (cases "falsy reqName")
    case True
    with inv show ?thesis by (simp add: Generate generate_invalid)
  next
    case False
    with fresh Generate have "jobId \<notin> set ids" by simp
    with inv False show ?thesis by (simp add: Generate store_inv_generate)
  qed
next
  case (Status jobId now)
  with inv show ?thesis by (simp add: store_inv_report_status)
next
  case (Download jobId now)
  with inv show ?thesis by (simp add: store_inv_download)
next
  case (Fire k)
  with inv show ?thesis by (simp add: store_inv_fire)
qed

lemma generated_ids_snoc: "generated_ids (es @ [e]) = generated_ids es @ uuid_of e"
  by (simp add: generated_ids_def)

lemma fresh_ids_snoc:
  "fresh_ids (es @ [e]) \<longleftrightarrow>
     fresh_ids es \<and> set (uuid_of e) \<inter> set (generated_ids es) = {} \<and> distinct (uuid_of e)"
  by (auto simp: fresh_ids_def generated_ids_snoc)

lemma store_inv_exec: "fresh_ids es \<Longrightarrow> store_inv (generated_ids es) (exec es)"
proof (induction es rule: rev_induct)
  case Nil
  show ?case by (simp add: exec_def init_def store_inv_def generated_ids_def completions_def)
next
  case (snoc e es)
  then show ?case
    by (simp add: exec_snoc generated_ids_snoc fresh_ids_snoc store_inv_step)
qed

section \<open>How a job record evolves\<close>

lemma no_failed_step: "no_failed s \<Longrightarrow> no_failed (step s e)"
proof (cases e)
  case (Generate reqName jobId now)
  assume "no_failed s"
  then show ?thesis
    by (cases "falsy reqName")
       (auto simp: Generate generate_invalid reports_generate no_failed_def pending_record_def)
next
  case (Status jobId now)
  assume "no_failed s"
  then show ?thesis
    by (auto simp: Status no_failed_def reports_report_status split: option.splits if_splits)
next
  case (Download jobId now)
  assume "no_failed s"
  then show ?thesis
    by (auto simp: Download no_failed_def reports_download_report split: option.splits if_splits)
next
  case (Fire k)
  assume nf: "no_failed s"
  show ?thesis
  proof (cases "k < length (timers s)")
    case False
    with nf show ?thesis by (simp add: Fire fire_beyond)
  next
    case True
    from fire_split [OF True] obtain xs t ys where
      ts: "timers s = xs @ t # ys" and
      f: "fire s k = run_task (s\<lparr>timers := xs @ ys\<rparr>) (snd t)" by blast
    from nf show ?thesis
      by (cases "snd t")
         (auto simp: Fire f no_failed_def reports_complete_report completed_record_def)
  qed
qed

lemma no_failed_exec: "no_failed (exec es)"
proof (induction es rule: rev_induct)
  case Nil
  show ?case by (simp add: exec_def init_def no_failed_def)
next
  case (snoc e es)
  then show ?case by (simp add: exec_snoc no_failed_step)
qed

lemma step_reports_cases:
  "reports (step s e) j = reports s j \<or> reports (step s e) j = None \<or>
   (\<exists>n t. (j, n, t) \<in> set (completions s) \<and>
          reports (step s e) j = Some (completed_record j n t)) \<or>
   j \<in> set (uuid_of e)"
proof (cases e)
  case (Generate reqName jobId now)
  then show ?thesis
    by (cases "falsy reqName") (auto simp: generate_invalid reports_generate)
next
  case (Status jobId now)
  then show ?thesis
    by (auto simp: reports_report_status split: option.splits)
next
  case (Download jobId now)
  then show ?thesis
    by (auto simp: reports_download_report split: option.splits)
next
  case (Fire k)
  show ?thesis
  proof (cases "k < length (timers s)")
    case False
    then show ?thesis by (simp add: Fire fire_beyond)
  next
    case True
    from fire_split [OF True] obtain xs t ys where
      ts: "timers s = xs @ t # ys" and
      f: "fire s k = run_task (s\<lparr>timers := xs @ ys\<rparr>) (snd t)" by blast
    obtain d tk where t: "t = (d, tk)" by (cases t)
    show ?thesis
    proof (cases tk)
      case (CheckStatus res jobId)
      then show ?thesis by (simp add: Fire f t)
    next
      case (CompleteReport jobId nm now)
      with ts t have "(jobId, nm, now) \<in> set (completions s)"
        by (simp add: completions_def)
      then show ?thesis
        by (auto simp: Fire f t CompleteReport reports_complete_report)
    qed
  qed
qed

lemma step_completions:
  assumes "x \<in> set (completions (step s e))"
  shows "x \<in> set (completions s) \<or> fst x \<in> set (uuid_of e)"
proof (cases e)
  case (Generate reqName jobId now)
  with assms show ?thesis
    by (cases "falsy reqName") (auto simp: generate_invalid completions_generate)
next
  case (Status jobId now)
  with assms show ?thesis by simp
next
  case (Download jobId now)
  with assms show ?thesis by simp
next
  case (Fire k)
  show ?thesis
  proof (cases "k < length (timers s)")
    case False
    with assms show ?thesis by (simp add: Fire fire_beyond)
  next
    case True
    from fire_split [OF True] obtain xs t ys where
      ts: "timers s = xs @ t # ys" and
      f: "fire s k = run_task (s\<lparr>timers := xs @ ys\<rparr>) (snd t)" by blast
    have "completions (fire s k) = completions (s\<lparr>timers := xs @ ys\<rparr>)"
      by (cases "snd t") (simp_all add: f)
    then have "completions (fire s k) =
        concat (map completion_of xs) @ concat (map completion_of ys)"
      by (simp add: completions_def)
    moreover have "completions s =
        concat (map completion_of xs) @ completion_of t @ concat (map completion_of ys)"
      using ts by (rule completions_remove)
    ultimately have "set (completions (fire s k)) \<subseteq> set (completions s)"
      by auto
    with assms Fire show ?thesis by auto
  qed
qed

lemma exec_step_append: "exec (es @ es' @ [e]) = step (exec (es @ es')) e"
  using exec_snoc [of "es @ es'" e] by simp

lemma fresh_ids_prefix: "fresh_ids (es @ es') \<Longrightarrow> fresh_ids es"
  by (simp add: fresh_ids_def generated_ids_def)

lemma lifecycle_aux:
  assumes r: "reports (exec es) j = Some r"
  shows "fresh_ids (es @ es') \<Longrightarrow>
     (\<forall>r'. reports (exec (es @ es')) j = Some r' \<longrightarrow>
        r' = r \<or> r = pending_record (name r) (createdAt r) \<and>
                 r' = completed_record j (name r) (createdAt r)) \<and>
     (\<forall>c \<in> set (completions (exec (es @ es'))). fst c = j \<longrightarrow>
        r = pending_record (fst (snd c)) (snd (snd c)))"
proof (induction es' rule: rev_induct)
  case Nil
  then have "store_inv (generated_ids es) (exec es)" by (simp add: store_inv_exec)
  with r show ?case by (auto simp: store_inv_def)
next
  case (snoc e es')
  let ?s = "exec (es @ es')"
  from snoc.prems have fr: "fresh_ids (es @ es')"
    using fresh_ids_prefix [of "es @ es'" "[e]"] by simp
  from fr have "store_inv (generated_ids es) (exec es)"
    using fresh_ids_prefix [of es es'] by (simp add: store_inv_exec)
  with r have "j \<in> set (generated_ids es)" by (auto simp: store_inv_def)
  then have "j \<in> set (generated_ids (es @ es'))" by (simp add: generated_ids_def)
  moreover from snoc.prems have "set (uuid_of e) \<inter> set (generated_ids (es @ es')) = {}"
    using fresh_ids_snoc [of "es @ es'" e] by simp
  ultimately have j: "j \<notin> set (uuid_of e)" by auto
  from snoc.IH [OF fr] have
    A: "\<And>r'. reports ?s j = Some r' \<Longrightarrow>
        r' = r \<or> r = pending_record (name r) (createdAt r) \<and>
                 r' = completed_record j (name r) (createdAt r)" and
    B: "\<And>c. c \<in> set (completions ?s) \<Longrightarrow> fst c = j \<Longrightarrow>
        r = pending_record (fst (snd c)) (snd (snd c))"
    by blast+
  have A': "\<forall>r'. reports (step ?s e) j = Some r' \<longrightarrow>
        r' = r \<or> r = pending_record (name r) (createdAt r) \<and>
                 r' = completed_record j (name r) (createdAt r)"
  proof (intro allI impI)
    fix r' assume r': "reports (step ?s e) j = Some r'"
    from step_reports_cases [of ?s e j] j r' consider
      (same) "reports ?s j = Some r'" |
      (fired) n t where "(j, n, t) \<in> set (completions ?s)" "r' = completed_record j n t"
      by auto
    then show "r' = r \<or> r = pending_record (name r) (createdAt r) \<and>
                 r' = completed_record j (name r) (createdAt r)"
    proof cases
      case same
      then show ?thesis by (rule A)
    next
      case fired
      from B [OF fired(1)] have "r = pending_record n t" by simp
      with fired(2) show ?thesis by (simp add: pending_record_def)
    qed
  qed
  have B': "\<forall>c \<in> set (completions (step ?s e)). fst c = j \<longrightarrow>
        r = pending_record (fst (snd c)) (snd (snd c))"
  proof (intro ballI impI)
    fix c assume c: "c \<in> set (completions (step ?s e))" and cj: "fst c = j"
    from step_completions [OF c] cj j have "c \<in> set (completions ?s)" by auto
    then show "r = pending_record (fst (snd c)) (snd (snd c))" using cj by (rule B)
  qed
  from A' B' show ?case by (simp add: exec_step_append)
qed

section \<open>The lifecycle of a job record\<close>

lemmas run_defs = exec_def init_def generate_report_def fire_def complete_report_def
  simulate_generation_def falsy_def string_defs pending_record_def completed_record_def Let_def

lemma sales_run_pending:
  "reports (exec sales_run) ''j1'' = Some (pending_record ''Sales Report'' 1000)"
  by (simp add: sales_run_def run_defs)

lemma sales_run_completed:
  "reports (exec (sales_run @ [Fire 0])) ''j1'' =
     Some (completed_record ''j1'' ''Sales Report'' 1000)"
  by (simp add: sales_run_def run_defs)

lemma sales_run_fresh: "fresh_ids (sales_run @ [Fire 0])"
  by (simp add: sales_run_def fresh_ids_def generated_ids_def falsy_def)

text \<open>
  Claim C1. Take any run of the server in which \<^verbatim>\<open>uuidv4()\<close> returns no identifier twice,
  a job record \<open>r\<close> found in the store under \<open>jobId\<close> at some moment of the run, and the
  record \<open>r'\<close> found under the same id at any later moment. Then \<open>r'\<close> has the name and the
  creation time of \<open>r\<close> (the id is the key, so it is the same by construction); either
  nothing changed, or \<open>r\<close> was pending and \<open>r'\<close> is completed or failed; a record that has
  left the pending status never changes again; and in every record the file path is present
  exactly when the status is completed and the error exactly when the status is failed.
\<close>

theorem job_record_lifecycle:
  assumes fresh: "fresh_ids (es @ es')"
    and r: "reports (exec es) jobId = Some r"
    and r': "reports (exec (es @ es')) jobId = Some r'"
  shows "name r' = name r \<and> createdAt r' = createdAt r \<and>
     (r' = r \<or> status r = Pending \<and> (status r' = Completed \<or> status r' = Failed)) \<and>
     (status r \<noteq> Pending \<longrightarrow> r' = r) \<and>
     (filePath r = None \<longleftrightarrow> status r \<noteq> Completed) \<and>
     (filePath r' = None \<longleftrightarrow> status r' \<noteq> Completed) \<and>
     (error r = None \<longleftrightarrow> status r \<noteq> Failed) \<and>
     (error r' = None \<longleftrightarrow> status r' \<noteq> Failed)"
proof -
  from lifecycle_aux [OF r fresh] r' have
    evo: "r' = r \<or> r = pending_record (name r) (createdAt r) \<and>
                 r' = completed_record jobId (name r) (createdAt r)"
    by blast
  have payload: "\<And>x. payload_ok x \<Longrightarrow>
      (filePath x = None \<longleftrightarrow> status x \<noteq> Completed) \<and> (error x = None \<longleftrightarrow> status x \<noteq> Failed)"
    by (auto simp: payload_ok_def falsy_def split: status.splits option.splits)
  from fresh have "store_inv (generated_ids es) (exec es)"
    using fresh_ids_prefix [of es es'] by (simp add: store_inv_exec)
  with r have p: "payload_ok r" by (auto simp: store_inv_def)
  from fresh have "store_inv (generated_ids (es @ es')) (exec (es @ es'))"
    by (rule store_inv_exec)
  with r' have p': "payload_ok r'" by (auto simp: store_inv_def)
  from evo have 1: "name r' = name r \<and> createdAt r' = createdAt r"
    by (auto simp: completed_record_def)
  from evo have 2: "r' = r \<or> status r = Pending \<and> (status r' = Completed \<or> status r' = Failed)"
  proof
    assume "r' = r" then show ?thesis by simp
  next
    assume "r = pending_record (name r) (createdAt r) \<and>
            r' = completed_record jobId (name r) (createdAt r)"
    then have "status r = Pending" "status r' = Completed"
      by (metis ReportData.select_convs(1) pending_record_def,
          simp add: completed_record_def)
    then show ?thesis by simp
  qed
  from evo have 3: "status r \<noteq> Pending \<longrightarrow> r' = r"
    by (metis ReportData.select_convs(1) pending_record_def)
  from payload [OF p] have 4: "(filePath r = None \<longleftrightarrow> status r \<noteq> Completed)"
    and 5: "(error r = None \<longleftrightarrow> status r \<noteq> Failed)" by simp_all
  from payload [OF p'] have 6: "(filePath r' = None \<longleftrightarrow> status r' \<noteq> Completed)"
    and 7: "(error r' = None \<longleftrightarrow> status r' \<noteq> Failed)" by simp_all
  from 1 have nm: "name r' = name r" and cr: "createdAt r' = createdAt r" by simp_all
  show ?thesis
    by (intro conjI) (rule nm cr 2 3 4 5 6 7)+
qed

theorem job_record_lifecycle_witness:
  "fresh_ids (sales_run @ [Fire 0]) \<and>
   reports (exec sales_run) ''j1'' = Some (pending_record ''Sales Report'' 1000) \<and>
   reports (exec (sales_run @ [Fire 0])) ''j1'' =
     Some (completed_record ''j1'' ''Sales Report'' 1000) \<and>
   name (completed_record ''j1'' ''Sales Report'' 1000) =
     name (pending_record ''Sales Report'' 1000) \<and>
   createdAt (completed_record ''j1'' ''Sales Report'' 1000) =
     createdAt (pending_record ''Sales Report'' 1000) \<and>
   status (pending_record ''Sales Report'' 1000) = Pending \<and>
   status (completed_record ''j1'' ''Sales Report'' 1000) = Completed \<and>
   filePath (pending_record ''Sales Report'' 1000) = None \<and>
   filePath (completed_record ''j1'' ''Sales Report'' 1000) \<noteq> None \<and>
   error (completed_record ''j1'' ''Sales Report'' 1000) = None"
  using job_record_lifecycle [OF sales_run_fresh sales_run_pending sales_run_completed]
    sales_run_fresh sales_run_pending sales_run_completed
  by (simp add: pending_record_def completed_record_def)

section \<open>The generation route\<close>

lemma length_le_longest: "i \<in> set ids \<Longrightarrow> length i \<le> foldr (\<lambda>i. max (length i)) ids 0"
  by (induction ids) auto

lemma uuidv4_fresh: "uuidv4 returned \<notin> set returned"
proof
  assume "uuidv4 returned \<in> set returned"
  then have "length (uuidv4 returned) \<le> foldr (\<lambda>i. max (length i)) returned 0"
    by (rule length_le_longest)
  then show False by (simp add: uuidv4_def)
qed

lemma generated_ids_Cons: "generated_ids (e # es) = uuid_of e @ generated_ids es"
  by (simp add: generated_ids_def)

lemma issue_ids_distinct:
  "distinct returned \<Longrightarrow> distinct (returned @ generated_ids (issue_ids returned es))"
proof (induction returned es rule: issue_ids.induct)
  case (1 returned)
  then show ?case by (simp add: generated_ids_def)
next
  case (2 returned reqName jobId now es)
  show ?case
  proof (cases "falsy reqName")
    case True
    with 2 show ?thesis by (simp add: generated_ids_Cons)
  next
    case False
    from "2.prems" have "distinct (returned @ [uuidv4 returned])"
      by (simp add: uuidv4_fresh)
    with False "2.IH"(2) have
      "distinct ((returned @ [uuidv4 returned]) @
         generated_ids (issue_ids (returned @ [uuidv4 returned]) es))"
      by blast
    with False show ?thesis by (simp add: generated_ids_Cons)
  qed
next
  case (3 returned jobId now es)
  then show ?case by (simp add: generated_ids_Cons)
next
  case (4 returned jobId now es)
  then show ?case by (simp add: generated_ids_Cons)
next
  case (5 returned k es)
  then show ?case by (simp add: generated_ids_Cons)
qed

lemma issue_ids_fresh: "fresh_ids (issue_ids [] es)"
  using issue_ids_distinct [of "[]" es] by (simp add: fresh_ids_def)

lemma issue_ids_append:
  "issue_ids returned (es @ es') =
     issue_ids returned es @ issue_ids (returned @ generated_ids (issue_ids returned es)) es'"
  by (induction returned es rule: issue_ids.induct) (simp_all add: generated_ids_Cons generated_ids_def)

lemma dom_exec_generated: "fresh_ids es \<Longrightarrow> dom (reports (exec es)) \<subseteq> set (generated_ids es)"
  using store_inv_exec [of es] by (simp add: store_inv_def)

text \<open>
  Claim C2. A request whose name is absent or empty is answered 400 with the error
  \<^verbatim>\<open>Report name is required\<close> and the server state is returned as it was, so no job is
  created. A request with a non-empty name is answered at once with the job id the
  generator returned, and the store then holds under that id a record with status pending,
  the name and the current time stamp, with neither file path nor error. In every run that
  takes its ids from the generator, the ids allocated are pairwise distinct, and the id
  allocated to a further valid request differs from every id allocated before, is not in
  the store, and is the one key the store gains. The route itself never tests the id
  against the store: that the id is fresh rests on the generator alone.
\<close>

theorem generate_report_validation:
  "(reqName = None \<or> reqName = Some [] \<longrightarrow>
      generate_report s reqName jobId now =
        (s, \<lparr>statusCode = 400, headers = [], body = JsonError ''Report name is required''\<rparr>)) \<and>
   (\<forall>nm. reqName = Some nm \<and> nm \<noteq> [] \<longrightarrow>
      snd (generate_report s reqName jobId now) =
        \<lparr>statusCode = 200, headers = [], body = JsonJobId jobId\<rparr> \<and>
      reports (fst (generate_report s reqName jobId now)) =
        (reports s)(jobId \<mapsto> \<lparr>status = Pending, name = nm, createdAt = now,
                                 filePath = None, error = None\<rparr>)) \<and>
   distinct (generated_ids (issue_ids [] es)) \<and>
   (\<forall>nm. reqName = Some nm \<and> nm \<noteq> [] \<longrightarrow>
      issue_ids [] (es @ [Generate reqName jobId now]) =
        issue_ids [] es @ [Generate reqName (uuidv4 (generated_ids (issue_ids [] es))) now] \<and>
      uuidv4 (generated_ids (issue_ids [] es)) \<notin> set (generated_ids (issue_ids [] es)) \<and>
      uuidv4 (generated_ids (issue_ids [] es)) \<notin> dom (reports (exec (issue_ids [] es))) \<and>
      dom (reports (exec (issue_ids [] (es @ [Generate reqName jobId now])))) =
        insert (uuidv4 (generated_ids (issue_ids [] es)))
          (dom (reports (exec (issue_ids [] es)))))"
proof -
  let ?run = "issue_ids [] es"
  let ?id = "uuidv4 (generated_ids ?run)"
  have a: "reqName = None \<or> reqName = Some [] \<longrightarrow>
      generate_report s reqName jobId now =
        (s, \<lparr>statusCode = 400, headers = [], body = JsonError ''Report name is required''\<rparr>)"
    by (auto simp: generate_invalid falsy_def)
  have b: "\<forall>nm. reqName = Some nm \<and> nm \<noteq> [] \<longrightarrow>
      snd (generate_report s reqName jobId now) =
        \<lparr>statusCode = 200, headers = [], body = JsonJobId jobId\<rparr> \<and>
      reports (fst (generate_report s reqName jobId now)) =
        (reports s)(jobId \<mapsto> \<lparr>status = Pending, name = nm, createdAt = now,
                                 filePath = None, error = None\<rparr>)"
    by (simp add: generate_report_def falsy_def Let_def)
  have fr: "fresh_ids ?run" by (rule issue_ids_fresh)
  then have c: "distinct (generated_ids ?run)" by (simp add: fresh_ids_def)
  have d: "\<forall>nm. reqName = Some nm \<and> nm \<noteq> [] \<longrightarrow>
      issue_ids [] (es @ [Generate reqName jobId now]) =
        ?run @ [Generate reqName ?id now] \<and>
      ?id \<notin> set (generated_ids ?run) \<and>
      ?id \<notin> dom (reports (exec ?run)) \<and>
      dom (reports (exec (issue_ids [] (es @ [Generate reqName jobId now])))) =
        insert ?id (dom (reports (exec ?run)))"
  proof (intro allI impI)
    fix nm
    assume "reqName = Some nm \<and> nm \<noteq> []"
    then have ok: "\<not> falsy reqName" by (simp add: falsy_def)
    then have 1: "issue_ids [] (es @ [Generate reqName jobId now]) =
        ?run @ [Generate reqName ?id now]"
      by (simp add: issue_ids_append)
    have 2: "?id \<notin> set (generated_ids ?run)" by (rule uuidv4_fresh)
    with dom_exec_generated [OF fr] have 3: "?id \<notin> dom (reports (exec ?run))" by auto
    have 4: "dom (reports (exec (issue_ids [] (es @ [Generate reqName jobId now])))) =
        insert ?id (dom (reports (exec ?run)))"
      unfolding 1 by (simp add: exec_snoc reports_generate [OF ok])
    from 1 2 3 4 show "issue_ids [] (es @ [Generate reqName jobId now]) =
        ?run @ [Generate reqName ?id now] \<and>
      ?id \<notin> set (generated_ids ?run) \<and>
      ?id \<notin> dom (reports (exec ?run)) \<and>
      dom (reports (exec (issue_ids [] (es @ [Generate reqName jobId now])))) =
        insert ?id (dom (reports (exec ?run)))"
      by (intro conjI)
  qed
  from a b c d show ?thesis by (intro conjI)
qed

lemma issued_sales_run:
  "issue_ids [] sales_run = [Generate (Some ''Sales Report'') ''0'' 1000]"
  by (simp add: sales_run_def falsy_def uuidv4_def)

theorem generate_report_validation_witness:
  "generate_report (exec sales_run) (Some []) ''j2'' 2000 =
     (exec sales_run,
      \<lparr>statusCode = 400, headers = [], body = JsonError ''Report name is required''\<rparr>) \<and>
   generate_report (exec sales_run) None ''j2'' 2000 =
     (exec sales_run,
      \<lparr>statusCode = 400, headers = [], body = JsonError ''Report name is required''\<rparr>) \<and>
   snd (generate_report (exec sales_run) (Some ''Stock'') ''j2'' 2000) =
     \<lparr>statusCode = 200, headers = [], body = JsonJobId ''j2''\<rparr> \<and>
   reports (fst (generate_report (exec sales_run) (Some ''Stock'') ''j2'' 2000)) =
     (reports (exec sales_run))(''j2'' \<mapsto> \<lparr>status = Pending, name = ''Stock'', createdAt = 2000,
                                 filePath = None, error = None\<rparr>) \<and>
   issue_ids [] (sales_run @ [Generate (Some ''Stock'') ''j2'' 2000]) =
     [Generate (Some ''Sales Report'') ''0'' 1000, Generate (Some ''Stock'') ''00'' 2000] \<and>
   ''00'' \<notin> dom (reports (exec [Generate (Some ''Sales Report'') ''0'' 1000])) \<and>
   dom (reports (exec [Generate (Some ''Sales Report'') ''0'' 1000,
                       Generate (Some ''Stock'') ''00'' 2000])) =
     insert ''00'' (dom (reports (exec [Generate (Some ''Sales Report'') ''0'' 1000])))"
proof -
  have u: "uuidv4 (generated_ids (issue_ids [] sales_run)) = ''00''"
    by (simp add: issued_sales_run generated_ids_def falsy_def uuidv4_def)
  have v: "(Some ''Stock'' :: string option) = Some ''Stock'' \<and> ''Stock'' \<noteq> []" by simp
  from generate_report_validation [of "Some ''Stock''" "exec sales_run" "''j2''" 2000 sales_run] v
  have g: "issue_ids [] (sales_run @ [Generate (Some ''Stock'') ''j2'' 2000]) =
        issue_ids [] sales_run @ [Generate (Some ''Stock'') ''00'' 2000] \<and>
      ''00'' \<notin> dom (reports (exec (issue_ids [] sales_run))) \<and>
      dom (reports (exec (issue_ids [] (sales_run @ [Generate (Some ''Stock'') ''j2'' 2000])))) =
        insert ''00'' (dom (reports (exec (issue_ids [] sales_run))))"
    unfolding u by blast
  then have g': "issue_ids [] (sales_run @ [Generate (Some ''Stock'') ''j2'' 2000]) =
      [Generate (Some ''Sales Report'') ''0'' 1000, Generate (Some ''Stock'') ''00'' 2000]"
    by (simp add: issued_sales_run)
  from g have "''00'' \<notin> dom (reports (exec [Generate (Some ''Sales Report'') ''0'' 1000])) \<and>
   dom (reports (exec [Generate (Some ''Sales Report'') ''0'' 1000,
                       Generate (Some ''Stock'') ''00'' 2000])) =
     insert ''00'' (dom (reports (exec [Generate (Some ''Sales Report'') ''0'' 1000])))"
    unfolding g' by (simp add: issued_sales_run)
  with g' show ?thesis
    using generate_report_validation [of "Some []" "exec sales_run" "''j2''" 2000 "[]"]
      generate_report_validation [of None "exec sales_run" "''j2''" 2000 "[]"]
      generate_report_validation [of "Some ''Stock''" "exec sales_run" "''j2''" 2000 "[]"]
    by simp
qed

text \<open>
  Claim C7. The timeout callback always takes the branch that sets the record to completed
  with the file path it built: the \<^verbatim>\<open>catch\<close> branch is never taken. Every valid generation
  request schedules exactly one such callback for its job, and running it leaves the job
  completed. In no state that any run of the server reaches does the store hold a record
  with status failed.
\<close>

theorem failure_branch_unreachable:
  "reports (complete_report s jobId nm now) jobId =
     Some \<lparr>status = Completed, name = nm, createdAt = now,
           filePath = Some (''/reports/'' @ replace_spaces (toLowerCase nm) @ ''-'' @ jobId @ ''.csv''),
           error = None\<rparr> \<and>
   (\<forall>nm. reqName = Some nm \<and> nm \<noteq> [] \<longrightarrow>
      (\<exists>delay. timers (fst (generate_report s reqName jobId now)) =
                 timers s @ [(delay, CompleteReport jobId nm now)]) \<and>
      reports (fire (fst (generate_report s reqName jobId now)) (length (timers s))) jobId =
        Some \<lparr>status = Completed, name = nm, createdAt = now,
              filePath = Some (''/reports/'' @ replace_spaces (toLowerCase nm) @ ''-'' @ jobId @ ''.csv''),
              error = None\<rparr>) \<and>
   (\<forall>j r. reports (exec es) j = Some r \<longrightarrow> status r \<noteq> Failed)"
proof -
  have a: "reports (complete_report s jobId nm now) jobId =
     Some \<lparr>status = Completed, name = nm, createdAt = now,
           filePath = Some (''/reports/'' @ replace_spaces (toLowerCase nm) @ ''-'' @ jobId @ ''.csv''),
           error = None\<rparr>"
    by (simp add: reports_complete_report completed_record_def)
  have b: "\<forall>nm. reqName = Some nm \<and> nm \<noteq> [] \<longrightarrow>
      (\<exists>delay. timers (fst (generate_report s reqName jobId now)) =
                 timers s @ [(delay, CompleteReport jobId nm now)]) \<and>
      reports (fire (fst (generate_report s reqName jobId now)) (length (timers s))) jobId =
        Some \<lparr>status = Completed, name = nm, createdAt = now,
              filePath = Some (''/reports/'' @ replace_spaces (toLowerCase nm) @ ''-'' @ jobId @ ''.csv''),
              error = None\<rparr>"
  proof (intro allI impI)
    fix nm assume "reqName = Some nm \<and> nm \<noteq> []"
    then have ok: "\<not> falsy reqName" and nm: "the reqName = nm" by (simp_all add: falsy_def)
    let ?s = "fst (generate_report s reqName jobId now)"
    from timers_generate [OF ok] nm have
      t: "\<exists>delay. timers ?s = timers s @ [(delay, CompleteReport jobId nm now)]"
      by simp
    then obtain delay where ts: "timers ?s = timers s @ [(delay, CompleteReport jobId nm now)]" ..
    then have "fire ?s (length (timers s)) =
        complete_report (?s\<lparr>timers := timers s\<rparr>) jobId nm now"
      by (simp add: fire_def)
    then have "reports (fire ?s (length (timers s))) jobId =
        Some \<lparr>status = Completed, name = nm, createdAt = now,
              filePath = Some (''/reports/'' @ replace_spaces (toLowerCase nm) @ ''-'' @ jobId @ ''.csv''),
              error = None\<rparr>"
      by (simp add: reports_complete_report completed_record_def)
    with t show "(\<exists>delay. timers ?s = timers s @ [(delay, CompleteReport jobId nm now)]) \<and>
      reports (fire ?s (length (timers s))) jobId =
        Some \<lparr>status = Completed, name = nm, createdAt = now,
              filePath = Some (''/reports/'' @ replace_spaces (toLowerCase nm) @ ''-'' @ jobId @ ''.csv''),
              error = None\<rparr>"
      by simp
  qed
  have c: "\<forall>j r. reports (exec es) j = Some r \<longrightarrow> status r \<noteq> Failed"
    using no_failed_exec [of es] by (simp add: no_failed_def)
  from a b c show ?thesis by (intro conjI)
qed

theorem failure_branch_unreachable_witness:
  "reports (complete_report init ''j1'' ''Sales Report'' 1000) ''j1'' =
     Some \<lparr>status = Completed, name = ''Sales Report'', createdAt = 1000,
           filePath = Some ''/reports/sales-report-j1.csv'', error = None\<rparr> \<and>
   timers (fst (generate_report init (Some ''Sales Report'') ''j1'' 1000)) =
     [(8000, CompleteReport ''j1'' ''Sales Report'' 1000)] \<and>
   reports (fire (fst (generate_report init (Some ''Sales Report'') ''j1'' 1000)) 0) ''j1'' =
     Some \<lparr>status = Completed, name = ''Sales Report'', createdAt = 1000,
           filePath = Some ''/reports/sales-report-j1.csv'', error = None\<rparr> \<and>
   reports (exec (sales_run @ [Fire 0])) ''j1'' =
     Some (completed_record ''j1'' ''Sales Report'' 1000) \<and>
   status (completed_record ''j1'' ''Sales Report'' 1000) \<noteq> Failed"
  using failure_branch_unreachable [of init "''j1''" "''Sales Report''" 1000
      "Some ''Sales Report''" "sales_run @ [Fire 0]"]
    sales_run_completed
  by (simp add: run_defs)

text \<open>
  Claim C6. The request with the name \<^verbatim>\<open>Sales Report\<close> is answered at once with the job
  id; it schedules the completion with a delay of 8000 ms; when that timeout has run the
  record of the job is completed and its file path contains \<^verbatim>\<open>sales-report\<close>; and a download
  at any time \<open>t\<close> within the expiry window then returns the CSV text that starts with
  \<^verbatim>\<open>id,name,value\<close> and contains \<^verbatim>\<open>Product A\<close>.
\<close>

theorem sales_report_scenario:
  assumes "t \<le> now + 30 * 60 * 1000"
  shows
  "snd (generate_report s (Some ''Sales Report'') jobId now) =
     \<lparr>statusCode = 200, headers = [], body = JsonJobId jobId\<rparr> \<and>
   timers (fst (generate_report s (Some ''Sales Report'') jobId now)) =
     timers s @ [(8000, CompleteReport jobId ''Sales Report'' now)] \<and>
   reports (fire (fst (generate_report s (Some ''Sales Report'') jobId now))
              (length (timers s))) jobId =
     Some \<lparr>status = Completed, name = ''Sales Report'', createdAt = now,
           filePath = Some (''/reports/sales-report-'' @ jobId @ ''.csv''), error = None\<rparr> \<and>
   str_includes (''/reports/sales-report-'' @ jobId @ ''.csv'') ''sales-report'' \<and>
   snd (download_report
          (fire (fst (generate_report s (Some ''Sales Report'') jobId now)) (length (timers s)))
          jobId t) =
     \<lparr>statusCode = 200,
      headers = [(''Content-Type'', ''text/csv''),
                 (''Content-Disposition'', ''attachment; filename=sales-report.csv'')],
      body = Text ''id,name,value\<newline>1,Product A,1000\<newline>2,Product B,2000\<newline>3,Product C,3000''\<rparr> \<and>
   startsWith ''id,name,value\<newline>1,Product A,1000\<newline>2,Product B,2000\<newline>3,Product C,3000''
     ''id,name,value'' \<and>
   str_includes ''id,name,value\<newline>1,Product A,1000\<newline>2,Product B,2000\<newline>3,Product C,3000''
     ''Product A''"
proof -
  let ?s1 = "fst (generate_report s (Some ''Sales Report'') jobId now)"
  have lower: "toLowerCase ''Sales Report'' = ''sales report''"
    by (simp add: string_defs)
  have sales: "str_includes ''sales report'' ''sales''" by simp
  have 1: "snd (generate_report s (Some ''Sales Report'') jobId now) =
     \<lparr>statusCode = 200, headers = [], body = JsonJobId jobId\<rparr>"
    by (simp add: generate_report_def falsy_def Let_def)
  have 2: "timers ?s1 = timers s @ [(8000, CompleteReport jobId ''Sales Report'' now)]"
    by (simp add: timers_generate falsy_def lower)
  then have f: "fire ?s1 (length (timers s)) =
      complete_report (?s1\<lparr>timers := timers s\<rparr>) jobId ''Sales Report'' now"
    by (simp add: fire_def)
  have 3: "reports (fire ?s1 (length (timers s))) jobId =
     Some \<lparr>status = Completed, name = ''Sales Report'', createdAt = now,
           filePath = Some (''/reports/sales-report-'' @ jobId @ ''.csv''), error = None\<rparr>"
    by (simp add: f reports_complete_report completed_record_def lower is_space_def)
  have 4: "str_includes (''/reports/sales-report-'' @ jobId @ ''.csv'') ''sales-report''"
    by simp
  from assms have 5: "snd (download_report (fire ?s1 (length (timers s))) jobId t) =
     \<lparr>statusCode = 200,
      headers = [(''Content-Type'', ''text/csv''),
                 (''Content-Disposition'', ''attachment; filename=sales-report.csv'')],
      body = Text ''id,name,value\<newline>1,Product A,1000\<newline>2,Product B,2000\<newline>3,Product C,3000''\<rparr>"
    by (simp add: download_report_def 3 falsy_def csvContent_def lower is_space_def
          invalid_header_char_def Let_def)
  have 6: "startsWith ''id,name,value\<newline>1,Product A,1000\<newline>2,Product B,2000\<newline>3,Product C,3000''
     ''id,name,value''"
    by simp
  have 7: "str_includes ''id,name,value\<newline>1,Product A,1000\<newline>2,Product B,2000\<newline>3,Product C,3000''
     ''Product A''"
    by simp
  from 1 2 3 4 5 6 7 show ?thesis by (intro conjI)
qed

theorem sales_report_scenario_witness:
  "(9000 :: int) \<le> 1000 + 30 * 60 * 1000 \<and>
   snd (generate_report init (Some ''Sales Report'') ''j1'' 1000) =
     \<lparr>statusCode = 200, headers = [], body = JsonJobId ''j1''\<rparr> \<and>
   timers (exec sales_run) = [(8000, CompleteReport ''j1'' ''Sales Report'' 1000)] \<and>
   reports (exec (sales_run @ [Fire 0])) ''j1'' =
     Some \<lparr>status = Completed, name = ''Sales Report'', createdAt = 1000,
           filePath = Some ''/reports/sales-report-j1.csv'', error = None\<rparr> \<and>
   snd (download_report (exec (sales_run @ [Fire 0])) ''j1'' 9000) =
     \<lparr>statusCode = 200,
      headers = [(''Content-Type'', ''text/csv''),
                 (''Content-Disposition'', ''attachment; filename=sales-report.csv'')],
      body = Text ''id,name,value\<newline>1,Product A,1000\<newline>2,Product B,2000\<newline>3,Product C,3000''\<rparr>"
proof -
  have t: "(9000 :: int) \<le> 1000 + 30 * 60 * 1000" by simp
  have e1: "exec sales_run = fst (generate_report init (Some ''Sales Report'') ''j1'' 1000)"
    by (simp add: sales_run_def exec_def)
  have e2: "exec (sales_run @ [Fire 0]) =
      fire (fst (generate_report init (Some ''Sales Report'') ''j1'' 1000)) (length (timers init))"
    by (simp add: sales_run_def exec_def init_def)
  have e3: "timers init = []" by (simp add: init_def)
  from sales_report_scenario [OF t, of init "''j1''"] t show ?thesis
    by (simp add: e1 e2 e3)
qed

section \<open>Expiry and the frame of the two reading routes\<close>

text \<open>
  Claim C10. The status route and the download route never add a record and never change
  a field of one: after either, the store is what it was, or it is the store without the
  requested job, and then that job was past the expiry window. A later run of
  \<^verbatim>\<open>checkStatus\<close> leaves the store as it was. A download answered 200 leaves the whole server
  state unchanged.
\<close>

theorem status_and_download_frame:
  "(reports (report_status s jobId now) = reports s \<or>
      (\<exists>r. reports s jobId = Some r \<and> createdAt r < now - 30 * 60 * 1000 \<and>
           reports (report_status s jobId now) = (reports s)(jobId := None))) \<and>
   reports (checkStatus s res jobId) = reports s \<and>
   (reports (fst (download_report s jobId now)) = reports s \<or>
      (\<exists>r. reports s jobId = Some r \<and> createdAt r < now - 30 * 60 * 1000 \<and>
           reports (fst (download_report s jobId now)) = (reports s)(jobId := None))) \<and>
   (statusCode (snd (download_report s jobId now)) = 200 \<longrightarrow>
      fst (download_report s jobId now) = s)"
proof -
  have a: "reports (report_status s jobId now) = reports s \<or>
      (\<exists>r. reports s jobId = Some r \<and> createdAt r < now - 30 * 60 * 1000 \<and>
           reports (report_status s jobId now) = (reports s)(jobId := None))"
    by (simp add: reports_report_status split: option.splits)
  have b: "reports (fst (download_report s jobId now)) = reports s \<or>
      (\<exists>r. reports s jobId = Some r \<and> createdAt r < now - 30 * 60 * 1000 \<and>
           reports (fst (download_report s jobId now)) = (reports s)(jobId := None))"
    by (simp add: reports_download_report split: option.splits)
  have c: "statusCode (snd (download_report s jobId now)) = 200 \<longrightarrow>
      fst (download_report s jobId now) = s"
    by (simp add: download_report_def Let_def split: option.splits)
  from a b c show ?thesis by simp
qed

theorem status_and_download_frame_witness:
  "reports (report_status (store_of done_job) ''j1'' 1801001) ''j1'' = None \<and>
   reports (report_status (store_of done_job) ''j1'' 1801000) = reports (store_of done_job) \<and>
   reports (checkStatus (report_status (store_of done_job) ''j1'' 1801000) 0 ''j1'') =
     reports (store_of done_job) \<and>
   statusCode (snd (download_report (store_of done_job) ''j1'' 1801000)) = 200 \<and>
   fst (download_report (store_of done_job) ''j1'' 1801000) = store_of done_job"
  using status_and_download_frame [of "store_of done_job" "''j1''" 1801001 0]
    status_and_download_frame [of "store_of done_job" "''j1''" 1801000 0]
    status_and_download_frame [of "report_status (store_of done_job) ''j1'' 1801000" "''j1''" 1801000 0]
  by (simp add: store_of_def done_job_def download_report_def falsy_def reports_report_status
        string_defs)

lemma sales_run_late_download:
  "exec (sales_run @ [Download ''j1'' 1801001]) = exec sales_run"
  by (simp add: sales_run_def exec_def init_def generate_report_def download_report_def
        falsy_def Let_def)

text \<open>
  Claim C5, as stated, fails on the download route. \<^verbatim>\<open>Date.now()\<close> is the wall clock and
  is not tied to the timer that completes a job, so a download can find a job that is
  still pending and older than thirty minutes: the route answers \<^verbatim>\<open>not ready\<close> before it
  looks at the age, and the job stays in the store.
\<close>

theorem expired_pending_job_not_evicted:
  "reports (exec sales_run) ''j1'' = Some (pending_record ''Sales Report'' 1000) \<and>
   createdAt (pending_record ''Sales Report'' 1000) < 1801001 - 30 * 60 * 1000 \<and>
   download_report (exec sales_run) ''j1'' 1801001 =
     (exec sales_run,
      \<lparr>statusCode = 400, headers = [], body = JsonError ''Report is not ready for download''\<rparr>) \<and>
   reports (exec (sales_run @ [Download ''j1'' 1801001])) ''j1'' =
     Some (pending_record ''Sales Report'' 1000)"
  using sales_run_pending
  by (simp add: sales_run_late_download download_report_def pending_record_def)

text \<open>
  Claim C5, amended. For a job in the store whose creation time is more than thirty
  minutes before \<open>now\<close>, a request that arrives at \<open>now\<close> fails: the status route writes the
  error \<^verbatim>\<open>Report expired\<close>, ends the stream, schedules nothing and deletes the job; the
  download route answers 400; and when the job is completed with a file path the download
  route answers \<^verbatim>\<open>Report has expired\<close> and deletes the job. A stream that was opened
  before is not cut off: a re-check on it does not test the age, writes the record of the
  job to the stream and leaves the store as it is.
\<close>

theorem expired_job_access:
  assumes job: "reports s jobId = Some r" and old: "createdAt r < now - 30 * 60 * 1000"
  shows "streams (report_status s jobId now) =
           streams s @ [\<lparr>frames = [ErrorFrame ''Report expired''], ended = True\<rparr>] \<and>
         timers (report_status s jobId now) = timers s \<and>
         reports (report_status s jobId now) = (reports s)(jobId := None) \<and>
         statusCode (snd (download_report s jobId now)) = 400 \<and>
         (status r = Completed \<and> \<not> falsy (filePath r) \<longrightarrow>
            snd (download_report s jobId now) =
              \<lparr>statusCode = 400, headers = [], body = JsonError ''Report has expired''\<rparr> \<and>
            reports (fst (download_report s jobId now)) = (reports s)(jobId := None)) \<and>
         (res < length (streams s) \<longrightarrow>
            frames (streams (checkStatus s res jobId) ! res) =
              frames (streams s ! res) @ [ReportFrame r] \<and>
            reports (checkStatus s res jobId) = reports s)"
proof -
  from job old have f: "first_frame s jobId now = ErrorFrame ''Report expired''"
    by (simp add: first_frame_def)
  have 1: "streams (report_status s jobId now) =
           streams s @ [\<lparr>frames = [ErrorFrame ''Report expired''], ended = True\<rparr>]"
    by (simp add: report_status_streams f emit_def)
  have 2: "timers (report_status s jobId now) = timers s"
    by (simp add: report_status_timers f)
  from job old have 3: "reports (report_status s jobId now) = (reports s)(jobId := None)"
    by (simp add: reports_report_status)
  from job old have 4: "statusCode (snd (download_report s jobId now)) = 400"
    by (simp add: download_report_def)
  from job old have 5: "status r = Completed \<and> \<not> falsy (filePath r) \<longrightarrow>
            snd (download_report s jobId now) =
              \<lparr>statusCode = 400, headers = [], body = JsonError ''Report has expired''\<rparr> \<and>
            reports (fst (download_report s jobId now)) = (reports s)(jobId := None)"
    by (simp add: download_report_def)
  from job have 6: "res < length (streams s) \<longrightarrow>
            frames (streams (checkStatus s res jobId) ! res) =
              frames (streams s ! res) @ [ReportFrame r] \<and>
            reports (checkStatus s res jobId) = reports s"
    by (simp add: checkStatus_streams current_frame_def emit_def)
  from 1 2 3 4 5 6 show ?thesis by (intro conjI)
qed

theorem expired_job_access_witness:
  "reports (store_of done_job) ''j1'' = Some done_job \<and>
   createdAt done_job < 1801001 - 30 * 60 * 1000 \<and>
   streams (report_status (store_of done_job) ''j1'' 1801001) =
     [\<lparr>frames = [ErrorFrame ''Report expired''], ended = True\<rparr>] \<and>
   reports (report_status (store_of done_job) ''j1'' 1801001) ''j1'' = None \<and>
   snd (download_report (store_of done_job) ''j1'' 1801001) =
     \<lparr>statusCode = 400, headers = [], body = JsonError ''Report has expired''\<rparr> \<and>
   reports (fst (download_report (store_of done_job) ''j1'' 1801001)) ''j1'' = None \<and>
   reports (report_status (store_of pending_job) ''j1'' 2000) ''j1'' = Some pending_job \<and>
   createdAt pending_job < 1801001 - 30 * 60 * 1000 \<and>
   frames (streams (checkStatus (report_status (store_of pending_job) ''j1'' 2000) 0 ''j1'') ! 0) =
     [ReportFrame pending_job, ReportFrame pending_job] \<and>
   reports (checkStatus (report_status (store_of pending_job) ''j1'' 2000) 0 ''j1'') ''j1'' =
     Some pending_job"
proof -
  have job: "reports (store_of done_job) ''j1'' = Some done_job"
    by (simp add: store_of_def)
  have old: "createdAt done_job < 1801001 - 30 * 60 * 1000"
    by (simp add: done_job_def)
  have job': "reports (report_status (store_of pending_job) ''j1'' 2000) ''j1'' = Some pending_job"
    by (simp add: reports_report_status store_of_def pending_job_def)
  have old': "createdAt pending_job < 1801001 - 30 * 60 * 1000"
    by (simp add: pending_job_def)
  have open_stream: "streams (report_status (store_of pending_job) ''j1'' 2000) =
      [\<lparr>frames = [ReportFrame pending_job], ended = False\<rparr>]"
    by (simp add: report_status_streams first_frame_def emit_def store_of_def pending_job_def)
  from expired_job_access [OF job old, of 0] expired_job_access [OF job' old', of 0]
    job old job' old' open_stream
  show ?thesis
    by (simp add: store_of_def done_job_def falsy_def)
qed

section \<open>The protocol of the status stream\<close>

lemmas stream_defs = report_status_def checkStatus_def write_frame_def end_stream_def
  download_report_def

lemma sales_run_expired_stream:
  "streams (exec (sales_run @ [Fire 0, Status ''j1'' 1801001])) =
     [\<lparr>frames = [ErrorFrame ''Report expired''], ended = True\<rparr>]"
  by (simp add: sales_run_def run_defs stream_defs)

text \<open>
  Claim C3, as stated, fails for a job that is past the expiry window: the job exists, yet
  the only frame of the stream is the error \<^verbatim>\<open>Report expired\<close>, not the record, and the
  stream ends after an error rather than after the terminal record.
\<close>

theorem expired_job_stream_has_no_record:
  "reports (exec (sales_run @ [Fire 0])) ''j1'' =
     Some (completed_record ''j1'' ''Sales Report'' 1000) \<and>
   status (completed_record ''j1'' ''Sales Report'' 1000) = Completed \<and>
   streams (report_status (exec (sales_run @ [Fire 0])) ''j1'' 1801001) =
     [\<lparr>frames = [ErrorFrame ''Report expired''], ended = True\<rparr>]"
  using sales_run_completed sales_run_expired_stream
  by (simp add: exec_def completed_record_def)

text \<open>
  Claim C3, amended. The status route opens a stream and writes one frame at once: the
  error \<^verbatim>\<open>Report not found\<close> when no job has the requested id, the error \<^verbatim>\<open>Report expired\<close>
  when the job is past the expiry window, which it then deletes from the store, and the
  current record otherwise; in the other cases, and in every re-check, the store stays as
  it is. After an error
  or a record that is completed or failed it ends the stream and schedules nothing;
  after a pending record it schedules one re-check with the fixed delay of 50000 ms. A
  re-check writes the current record, or \<^verbatim>\<open>Report not found\<close> when the job is gone, and
  again ends the stream exactly when that frame is final. In every state that any run
  reaches, every stream has a frame, is ended exactly when its last frame is an error or a
  record in a terminal status, and has no such frame before the last.
\<close>

theorem status_stream_protocol:
  "(reports s jobId = None \<longrightarrow>
      streams (report_status s jobId now) =
        streams s @ [\<lparr>frames = [ErrorFrame ''Report not found''], ended = True\<rparr>] \<and>
      timers (report_status s jobId now) = timers s \<and>
      reports (report_status s jobId now) = reports s) \<and>
   (\<forall>r. reports s jobId = Some r \<and> createdAt r < now - 30 * 60 * 1000 \<longrightarrow>
      streams (report_status s jobId now) =
        streams s @ [\<lparr>frames = [ErrorFrame ''Report expired''], ended = True\<rparr>] \<and>
      timers (report_status s jobId now) = timers s \<and>
      reports (report_status s jobId now) = (reports s)(jobId := None)) \<and>
   (\<forall>r. reports s jobId = Some r \<and> \<not> createdAt r < now - 30 * 60 * 1000 \<longrightarrow>
      streams (report_status s jobId now) =
        streams s @ [\<lparr>frames = [ReportFrame r],
                      ended = (status r = Completed \<or> status r = Failed)\<rparr>] \<and>
      timers (report_status s jobId now) =
        timers s @ (if status r = Completed \<or> status r = Failed then []
                    else [(50000, CheckStatus (length (streams s)) jobId)]) \<and>
      reports (report_status s jobId now) = reports s) \<and>
   (res < length (streams s) \<longrightarrow>
      frames (streams (checkStatus s res jobId) ! res) =
        frames (streams s ! res) @ [current_frame s jobId] \<and>
      ended (streams (checkStatus s res jobId) ! res) =
        (final_frame (current_frame s jobId) \<or> ended (streams s ! res)) \<and>
      timers (checkStatus s res jobId) =
        timers s @ (if final_frame (current_frame s jobId) then []
                    else [(50000, CheckStatus res jobId)]) \<and>
      reports (checkStatus s res jobId) = reports s) \<and>
   (res < length (streams s) \<and> reports s jobId = None \<longrightarrow>
      frames (streams (checkStatus s res jobId) ! res) =
        frames (streams s ! res) @ [ErrorFrame ''Report not found''] \<and>
      ended (streams (checkStatus s res jobId) ! res)) \<and>
   (\<forall>r. res < length (streams s) \<and> reports s jobId = Some r \<longrightarrow>
      frames (streams (checkStatus s res jobId) ! res) =
        frames (streams s ! res) @ [ReportFrame r] \<and>
      ended (streams (checkStatus s res jobId) ! res) =
        (status r = Completed \<or> status r = Failed \<or> ended (streams s ! res))) \<and>
   (\<forall>st \<in> set (streams (exec es)).
      frames st \<noteq> [] \<and> (\<forall>f \<in> set (butlast (frames st)). \<not> final_frame f) \<and>
      ended st = final_frame (last (frames st)))"
proof -
  have a: "reports s jobId = None \<longrightarrow>
      streams (report_status s jobId now) =
        streams s @ [\<lparr>frames = [ErrorFrame ''Report not found''], ended = True\<rparr>] \<and>
      timers (report_status s jobId now) = timers s \<and>
      reports (report_status s jobId now) = reports s"
    by (simp add: report_status_streams report_status_timers first_frame_def emit_def
          reports_report_status)
  have b: "\<forall>r. reports s jobId = Some r \<and> createdAt r < now - 30 * 60 * 1000 \<longrightarrow>
      streams (report_status s jobId now) =
        streams s @ [\<lparr>frames = [ErrorFrame ''Report expired''], ended = True\<rparr>] \<and>
      timers (report_status s jobId now) = timers s \<and>
      reports (report_status s jobId now) = (reports s)(jobId := None)"
    by (simp add: report_status_streams report_status_timers first_frame_def emit_def
          reports_report_status)
  have c: "\<forall>r. reports s jobId = Some r \<and> \<not> createdAt r < now - 30 * 60 * 1000 \<longrightarrow>
      streams (report_status s jobId now) =
        streams s @ [\<lparr>frames = [ReportFrame r],
                      ended = (status r = Completed \<or> status r = Failed)\<rparr>] \<and>
      timers (report_status s jobId now) =
        timers s @ (if status r = Completed \<or> status r = Failed then []
                    else [(50000, CheckStatus (length (streams s)) jobId)]) \<and>
      reports (report_status s jobId now) = reports s"
    by (simp add: report_status_streams report_status_timers first_frame_def emit_def
          reports_report_status)
  have d: "res < length (streams s) \<longrightarrow>
      frames (streams (checkStatus s res jobId) ! res) =
        frames (streams s ! res) @ [current_frame s jobId] \<and>
      ended (streams (checkStatus s res jobId) ! res) =
        (final_frame (current_frame s jobId) \<or> ended (streams s ! res)) \<and>
      timers (checkStatus s res jobId) =
        timers s @ (if final_frame (current_frame s jobId) then []
                    else [(50000, CheckStatus res jobId)]) \<and>
      reports (checkStatus s res jobId) = reports s"
    by (simp add: checkStatus_streams checkStatus_timers final_current_frame emit_def)
  have e: "\<forall>st \<in> set (streams (exec es)).
      frames st \<noteq> [] \<and> (\<forall>f \<in> set (butlast (frames st)). \<not> final_frame f) \<and>
      ended st = final_frame (last (frames st))"
    using streams_inv_exec [of es] by (simp add: streams_inv_def stream_ok_def)
  have d1: "res < length (streams s) \<and> reports s jobId = None \<longrightarrow>
      frames (streams (checkStatus s res jobId) ! res) =
        frames (streams s ! res) @ [ErrorFrame ''Report not found''] \<and>
      ended (streams (checkStatus s res jobId) ! res)"
    by (simp add: checkStatus_streams current_frame_def emit_def)
  have d2: "\<forall>r. res < length (streams s) \<and> reports s jobId = Some r \<longrightarrow>
      frames (streams (checkStatus s res jobId) ! res) =
        frames (streams s ! res) @ [ReportFrame r] \<and>
      ended (streams (checkStatus s res jobId) ! res) =
        (status r = Completed \<or> status r = Failed \<or> ended (streams s ! res))"
    by (simp add: checkStatus_streams current_frame_def emit_def)
  from a b c d d1 d2 e show ?thesis by (intro conjI)
qed

lemma watched_run_streams:
  "streams (exec watched_run) =
     [\<lparr>frames = [ReportFrame (pending_record ''Sales Report'' 1000),
                  ReportFrame (completed_record ''j1'' ''Sales Report'' 1000)],
       ended = True\<rparr>]"
  by (simp add: watched_run_def sales_run_def run_defs stream_defs)

lemma recheck_gone_stream:
  "streams (checkStatus (report_status (store_of pending_job) ''j1'' 2000) 0 ''gone'') =
     [\<lparr>frames = [ReportFrame pending_job, ErrorFrame ''Report not found''], ended = True\<rparr>]"
  by (simp add: report_status_streams first_frame_def checkStatus_streams current_frame_def
        emit_def reports_report_status store_of_def pending_job_def)

theorem status_stream_protocol_witness:
  "streams (report_status init ''j1'' 2000) =
     [\<lparr>frames = [ErrorFrame ''Report not found''], ended = True\<rparr>] \<and>
   streams (report_status (store_of done_job) ''j1'' 1801001) =
     [\<lparr>frames = [ErrorFrame ''Report expired''], ended = True\<rparr>] \<and>
   reports (report_status (store_of done_job) ''j1'' 1801001) ''j1'' = None \<and>
   streams (report_status (store_of pending_job) ''j1'' 2000) =
     [\<lparr>frames = [ReportFrame pending_job], ended = False\<rparr>] \<and>
   timers (report_status (store_of pending_job) ''j1'' 2000) = [(50000, CheckStatus 0 ''j1'')] \<and>
   streams (report_status (store_of done_job) ''j1'' 2000) =
     [\<lparr>frames = [ReportFrame done_job], ended = True\<rparr>] \<and>
   timers (report_status (store_of done_job) ''j1'' 2000) = [] \<and>
   frames (streams (checkStatus (report_status (store_of pending_job) ''j1'' 2000) 0 ''j1'') ! 0) =
     [ReportFrame pending_job, ReportFrame pending_job] \<and>
   streams (checkStatus (report_status (store_of pending_job) ''j1'' 2000) 0 ''gone'') =
     [\<lparr>frames = [ReportFrame pending_job, ErrorFrame ''Report not found''], ended = True\<rparr>] \<and>
   streams (exec watched_run) =
     [\<lparr>frames = [ReportFrame (pending_record ''Sales Report'' 1000),
                  ReportFrame (completed_record ''j1'' ''Sales Report'' 1000)],
       ended = True\<rparr>] \<and>
   final_frame (ReportFrame (completed_record ''j1'' ''Sales Report'' 1000)) \<and>
   \<not> final_frame (ReportFrame (pending_record ''Sales Report'' 1000))"
  using status_stream_protocol [of init "''j1''" 2000 0 "[]"]
    status_stream_protocol [of "store_of done_job" "''j1''" 1801001 0 "[]"]
    status_stream_protocol [of "store_of pending_job" "''j1''" 2000 0 "[]"]
    status_stream_protocol [of "store_of done_job" "''j1''" 2000 0 "[]"]
    status_stream_protocol [of "report_status (store_of pending_job) ''j1'' 2000" "''j1''" 2000 0
      watched_run]
    status_stream_protocol [of "report_status (store_of pending_job) ''j1'' 2000" "''gone''" 2000 0
      "[]"]
    watched_run_streams recheck_gone_stream
  by (simp add: init_def store_of_def done_job_def pending_job_def current_frame_def
        pending_record_def completed_record_def reports_report_status)

section \<open>The client hook\<close>

lemma fst_update_job_id [simp]: "job_id (fst (update_job href jobId data now j)) = job_id j"
  by (simp add: update_job_def Let_def)

lemma update_job_other:
  "job_id j \<noteq> jobId \<Longrightarrow> update_job href jobId data now j = (j, [])"
  by (simp add: update_job_def)

lemma update_job_navigations:
  "concat (map navigation_of (snd (update_job href jobId data now j))) =
     (if job_id j = jobId \<and> rs_status data = Completed \<and> \<not> is_downloaded j
      then [href jobId] else [])"
  by (simp add: update_job_def Let_def)

lemma update_job_downloaded:
  "is_downloaded (fst (update_job href jobId data now j)) =
     (is_downloaded j \<or> job_id j = jobId \<and> rs_status data = Completed)"
  by (auto simp: update_job_def Let_def is_downloaded_def)

lemma jobs_onmessage:
  "jobs (onmessage href jobId c msg) =
     map (\<lambda>j. fst (update_job href jobId (fst msg) (snd msg) j)) (jobs c)"
  by (simp add: onmessage_def Let_def comp_def)

lemma ids_onmessage [simp]:
  "map job_id (jobs (onmessage href jobId c msg)) = map job_id (jobs c)"
  by (simp add: jobs_onmessage comp_def)

lemma concat_navigations:
  "concat (map navigation_of (concat (map (\<lambda>j. snd (update_job href jobId data now j)) js))) =
     replicate (length (filter (\<lambda>j. job_id j = jobId \<and> rs_status data = Completed \<and>
                                      \<not> is_downloaded j) js)) (href jobId)"
  by (induction js) (simp_all add: update_job_navigations)

lemma navigations_onmessage:
  "navigations (onmessage href jobId c msg) =
     navigations c @
     replicate (if rs_status (fst msg) = Completed then undownloaded jobId c else 0) (href jobId)"
proof -
  have "navigations (onmessage href jobId c msg) =
      navigations c @
      concat (map navigation_of (concat (map (\<lambda>j. snd (update_job href jobId (fst msg) (snd msg) j))
        (jobs c))))"
    by (simp add: navigations_def onmessage_def Let_def comp_def)
  then show ?thesis
    by (simp add: concat_navigations undownloaded_def)
qed

lemma undownloaded_onmessage:
  "undownloaded k (onmessage href jobId c msg) =
     (if k = jobId \<and> rs_status (fst msg) = Completed then 0 else undownloaded k c)"
proof -
  have "filter (\<lambda>j. job_id j = k \<and> \<not> is_downloaded j)
          (map (\<lambda>j. fst (update_job href jobId (fst msg) (snd msg) j)) js) =
        map (\<lambda>j. fst (update_job href jobId (fst msg) (snd msg) j))
          (filter (\<lambda>j. job_id j = k \<and> \<not> is_downloaded j \<and>
                       \<not> (job_id j = jobId \<and> rs_status (fst msg) = Completed)) js)" for js
    by (induction js) (auto simp: update_job_downloaded)
  then have "undownloaded k (onmessage href jobId c msg) =
      length (filter (\<lambda>j. job_id j = k \<and> \<not> is_downloaded j \<and>
                       \<not> (job_id j = jobId \<and> rs_status (fst msg) = Completed)) (jobs c))"
    by (simp add: undownloaded_def jobs_onmessage)
  also have "\<dots> = (if k = jobId \<and> rs_status (fst msg) = Completed then 0 else undownloaded k c)"
  proof (cases "k = jobId \<and> rs_status (fst msg) = Completed")
    case True
    then show ?thesis by (auto simp: filter_empty_conv)
  next
    case False
    have "filter (\<lambda>j. job_id j = k \<and> \<not> is_downloaded j \<and>
                       \<not> (job_id j = jobId \<and> rs_status (fst msg) = Completed)) (jobs c) =
          filter (\<lambda>j. job_id j = k \<and> \<not> is_downloaded j) (jobs c)"
      by (rule filter_cong) (use False in auto)
    with False show ?thesis by (auto simp: undownloaded_def)
  qed
  finally show ?thesis .
qed

lemma triggered_bound: "triggered href jobId c msgs + undownloaded jobId (deliver href c msgs) \<le> undownloaded jobId c"
proof (induction msgs arbitrary: c)
  case Nil
  show ?case by simp
next
  case (Cons m msgs)
  obtain k msg where m: "m = (k, msg)" by (cases m)
  let ?c = "onmessage href k c msg"
  have step: "(if k = jobId then length (navigations ?c) - length (navigations c) else 0) +
      undownloaded jobId ?c \<le> undownloaded jobId c"
    by (simp add: navigations_onmessage undownloaded_onmessage)
  from Cons.IH [of ?c] step show ?case by (simp add: m)
qed

lemma undownloaded_distinct:
  assumes "distinct (map job_id (jobs c))"
  shows "undownloaded jobId c \<le> 1"
proof -
  have "length (filter (\<lambda>j. job_id j = jobId \<and> \<not> is_downloaded j) js) \<le>
        length (filter (\<lambda>j. job_id j = jobId) js)" for js :: "ReportJob list"
    by (induction js) auto
  moreover have "distinct (map job_id js) \<Longrightarrow> length (filter (\<lambda>j. job_id j = jobId) js) \<le> 1"
    for js :: "ReportJob list"
  proof (induction js)
    case Nil
    show ?case by simp
  next
    case (Cons a js)
    show ?case
    proof (cases "job_id a = jobId")
      case True
      with Cons.prems have "jobId \<notin> job_id ` set js" by simp
      then have "\<forall>x \<in> set js. job_id x \<noteq> jobId" by blast
      then have "filter (\<lambda>j. job_id j = jobId) js = []" by (simp add: filter_empty_conv)
      with True show ?thesis by simp
    next
      case False
      with Cons show ?thesis by simp
    qed
  qed
  ultimately show ?thesis using assms
    unfolding undownloaded_def by (meson order_trans)
qed

lemma undownloaded_present:
  assumes "j \<in> set (jobs c)" "job_id j = jobId" "\<not> is_downloaded j"
  shows "1 \<le> undownloaded jobId c"
proof -
  from assms have "j \<in> set (filter (\<lambda>j. job_id j = jobId \<and> \<not> is_downloaded j) (jobs c))"
    by simp
  then have "filter (\<lambda>j. job_id j = jobId \<and> \<not> is_downloaded j) (jobs c) \<noteq> []"
    by (metis empty_iff list.set(1))
  then show ?thesis
    by (simp add: undownloaded_def Suc_le_eq)
qed

text \<open>
  Claim C8. With nothing stored the job list starts empty. Otherwise it is the stored list
  filtered, in order: a job is kept exactly when its status is not completed and its age,
  \<open>now\<close> minus its creation time, is strictly less than the expiry time (thirty minutes
  unless the configuration gives another). In particular a failed job within the window is
  kept, and a completed job and a job whose age has reached the expiry time are dropped.
\<close>

theorem initial_jobs_rehydrated:
  "initial_jobs cfg None now = [] \<and>
   initial_jobs cfg (Some stored) now =
     filter (\<lambda>job. rs_status (job_status job) \<noteq> Completed \<and>
                   now - job_createdAt job < expiryTime_of cfg) stored \<and>
   (job \<in> set (initial_jobs cfg (Some stored) now) \<longleftrightarrow>
      job \<in> set stored \<and> rs_status (job_status job) \<noteq> Completed \<and>
      now - job_createdAt job < expiryTime_of cfg) \<and>
   (job \<in> set stored \<and> rs_status (job_status job) = Failed \<and>
      now - job_createdAt job < expiryTime_of cfg \<longrightarrow>
      job \<in> set (initial_jobs cfg (Some stored) now)) \<and>
   (rs_status (job_status job) = Completed \<or> expiryTime_of cfg \<le> now - job_createdAt job \<longrightarrow>
      job \<notin> set (initial_jobs cfg (Some stored) now)) \<and>
   expiryTime_of None = 30 * 60 * 1000 \<and>
   (\<forall>c. expiryTime c = None \<longrightarrow> expiryTime_of (Some c) = 30 * 60 * 1000) \<and>
   (\<forall>c e. expiryTime c = Some e \<longrightarrow> expiryTime_of (Some c) = e)"
proof -
  let ?keep = "\<lambda>job. rs_status (job_status job) \<noteq> Completed \<and>
                   now - job_createdAt job < expiryTime_of cfg"
  have none: "initial_jobs cfg None now = []"
    by (simp add: initial_jobs_def)
  have some: "initial_jobs cfg (Some stored) now = filter ?keep stored"
    by (simp add: initial_jobs_def)
  have mem: "job \<in> set (initial_jobs cfg (Some stored) now) \<longleftrightarrow>
      job \<in> set stored \<and> rs_status (job_status job) \<noteq> Completed \<and>
      now - job_createdAt job < expiryTime_of cfg"
    unfolding some by simp
  have failed: "job \<in> set stored \<and> rs_status (job_status job) = Failed \<and>
      now - job_createdAt job < expiryTime_of cfg \<longrightarrow>
      job \<in> set (initial_jobs cfg (Some stored) now)"
    unfolding mem by simp
  have pruned: "rs_status (job_status job) = Completed \<or>
      expiryTime_of cfg \<le> now - job_createdAt job \<longrightarrow>
      job \<notin> set (initial_jobs cfg (Some stored) now)"
    unfolding mem by auto
  have d1: "expiryTime_of None = 30 * 60 * 1000"
    by (simp add: expiryTime_of_def DEFAULT_expiryTime_def)
  have d2: "\<forall>c. expiryTime c = None \<longrightarrow> expiryTime_of (Some c) = 30 * 60 * 1000"
    by (simp add: expiryTime_of_def DEFAULT_expiryTime_def)
  have d3: "\<forall>c e. expiryTime c = Some e \<longrightarrow> expiryTime_of (Some c) = e"
    by (simp add: expiryTime_of_def)
  from none some mem failed pruned d1 d2 d3 show ?thesis by (intro conjI)
qed

theorem initial_jobs_rehydrated_witness:
  "initial_jobs None (Some stored_jobs) 2000000 =
     [job_view ''a'' Pending 1000000, job_view ''c'' Failed 1000000] \<and>
   job_view ''c'' Failed 1000000 \<in> set stored_jobs \<and>
   rs_status (job_status (job_view ''c'' Failed 1000000)) = Failed \<and>
   2000000 - job_createdAt (job_view ''c'' Failed 1000000) < expiryTime_of None \<and>
   job_view ''c'' Failed 1000000 \<in> set (initial_jobs None (Some stored_jobs) 2000000) \<and>
   job_view ''d'' Pending 200000 \<notin> set (initial_jobs None (Some stored_jobs) 2000000) \<and>
   job_view ''b'' Completed 1000000 \<notin> set (initial_jobs None (Some stored_jobs) 2000000) \<and>
   expiryTime_of (Some \<lparr>storageKey = None, expiryTime = None\<rparr>) = 1800000 \<and>
   expiryTime_of (Some \<lparr>storageKey = None, expiryTime = Some 5\<rparr>) = 5"
  using initial_jobs_rehydrated [of None 2000000 stored_jobs "job_view ''c'' Failed 1000000"]
    initial_jobs_rehydrated [of None 2000000 stored_jobs "job_view ''d'' Pending 200000"]
    initial_jobs_rehydrated [of None 2000000 stored_jobs "job_view ''b'' Completed 1000000"]
  by (simp add: stored_jobs_def job_view_def expiryTime_of_def DEFAULT_expiryTime_def)

text \<open>
  Claim C9. When the handler of the stream of \<open>jobId\<close> receives a completed status and the
  job of that id is in the list with its downloaded flag not set, it navigates to the
  download address of the job and the job is in the new list with the flag set. After a
  completed message every entry of that id has the flag set, and a message for a job whose
  entries all have the flag set navigates nowhere. Whatever messages are delivered, in
  whatever order and to whichever streams, the handler of the stream of \<open>jobId\<close> navigates at
  most as many times as the list has entries of that id without the flag: at most once
  when the ids in the list are distinct.
\<close>

theorem download_triggered_once:
  "(distinct (map job_id (jobs c)) \<and> j \<in> set (jobs c) \<and> job_id j = jobId \<and>
      \<not> is_downloaded j \<and> rs_status data = Completed \<longrightarrow>
      navigations (onmessage href jobId c (data, now)) = navigations c @ [href jobId] \<and>
      j\<lparr>job_status := data\<lparr>timestamp := Some now\<rparr>, downloaded := Some True\<rparr>
        \<in> set (jobs (onmessage href jobId c (data, now)))) \<and>
   (\<forall>j' \<in> set (jobs (onmessage href jobId c (data, now))).
      job_id j' = jobId \<and> rs_status data = Completed \<longrightarrow> is_downloaded j') \<and>
   ((\<forall>j' \<in> set (jobs c). job_id j' = jobId \<longrightarrow> is_downloaded j') \<longrightarrow>
      navigations (onmessage href jobId c (data, now)) = navigations c) \<and>
   triggered href jobId c msgs \<le> undownloaded jobId c \<and>
   (distinct (map job_id (jobs c)) \<longrightarrow> triggered href jobId c msgs \<le> 1)"
proof -
  have a: "distinct (map job_id (jobs c)) \<and> j \<in> set (jobs c) \<and> job_id j = jobId \<and>
      \<not> is_downloaded j \<and> rs_status data = Completed \<longrightarrow>
      navigations (onmessage href jobId c (data, now)) = navigations c @ [href jobId] \<and>
      j\<lparr>job_status := data\<lparr>timestamp := Some now\<rparr>, downloaded := Some True\<rparr>
        \<in> set (jobs (onmessage href jobId c (data, now)))"
  proof
    assume h: "distinct (map job_id (jobs c)) \<and> j \<in> set (jobs c) \<and> job_id j = jobId \<and>
      \<not> is_downloaded j \<and> rs_status data = Completed"
    then have "undownloaded jobId c \<le> 1" "1 \<le> undownloaded jobId c"
      using undownloaded_distinct [of c jobId] undownloaded_present [of j c jobId] by blast+
    then have "undownloaded jobId c = 1" by simp
    with h have n: "navigations (onmessage href jobId c (data, now)) = navigations c @ [href jobId]"
      by (simp add: navigations_onmessage)
    from h have "fst (update_job href jobId data now j) =
        j\<lparr>job_status := data\<lparr>timestamp := Some now\<rparr>, downloaded := Some True\<rparr>"
      by (simp add: update_job_def Let_def)
    moreover from h have "fst (update_job href jobId data now j)
        \<in> set (jobs (onmessage href jobId c (data, now)))"
      by (simp add: jobs_onmessage)
    ultimately show "navigations (onmessage href jobId c (data, now)) = navigations c @ [href jobId] \<and>
      j\<lparr>job_status := data\<lparr>timestamp := Some now\<rparr>, downloaded := Some True\<rparr>
        \<in> set (jobs (onmessage href jobId c (data, now)))"
      using n by simp
  qed
  have b: "\<forall>j' \<in> set (jobs (onmessage href jobId c (data, now))).
      job_id j' = jobId \<and> rs_status data = Completed \<longrightarrow> is_downloaded j'"
    by (auto simp: jobs_onmessage update_job_downloaded)
  have c: "(\<forall>j' \<in> set (jobs c). job_id j' = jobId \<longrightarrow> is_downloaded j') \<longrightarrow>
      navigations (onmessage href jobId c (data, now)) = navigations c"
  proof
    assume "\<forall>j' \<in> set (jobs c). job_id j' = jobId \<longrightarrow> is_downloaded j'"
    then have "filter (\<lambda>j. job_id j = jobId \<and> \<not> is_downloaded j) (jobs c) = []"
      by (auto simp: filter_empty_conv)
    then have "undownloaded jobId c = 0" by (simp add: undownloaded_def)
    then show "navigations (onmessage href jobId c (data, now)) = navigations c"
      by (simp add: navigations_onmessage)
  qed
  have d: "triggered href jobId c msgs \<le> undownloaded jobId c"
    using triggered_bound [of href jobId c msgs] by simp
  have e: "distinct (map job_id (jobs c)) \<longrightarrow> triggered href jobId c msgs \<le> 1"
    using d undownloaded_distinct [of c jobId] by auto
  from a b c d e show ?thesis by (intro conjI)
qed

lemmas client_defs = onmessage_def update_job_def is_downloaded_def navigations_def
  one_job_client_def pending_job_view_def completed_msg_def downloads_url_def Let_def

theorem download_triggered_once_witness:
  "distinct (map job_id (jobs one_job_client)) \<and>
   pending_job_view \<in> set (jobs one_job_client) \<and>
   \<not> is_downloaded pending_job_view \<and>
   navigations (onmessage downloads_url ''j1'' one_job_client completed_msg) =
     [''http://localhost:3000/api/download-report/j1''] \<and>
   downloaded (hd (jobs (onmessage downloads_url ''j1'' one_job_client completed_msg))) =
     Some True \<and>
   navigations (deliver downloads_url one_job_client
                  [(''j1'', completed_msg), (''j1'', completed_msg), (''j1'', completed_msg)]) =
     [''http://localhost:3000/api/download-report/j1''] \<and>
   triggered downloads_url ''j1'' one_job_client
     [(''j1'', completed_msg), (''j1'', completed_msg), (''j1'', completed_msg)] = 1"
  using download_triggered_once [of one_job_client pending_job_view "''j1''" "fst completed_msg"
      downloads_url "snd completed_msg"
      "[(''j1'', completed_msg), (''j1'', completed_msg), (''j1'', completed_msg)]"]
  by (simp add: client_defs)

end
